theory Spec2Isabelle
  imports Main "HOL-Library.Sublist"
begin

text \<open>
  Google Apps Script automations for a Google Workspace domain: audits of inactive
  licensed users (a hybrid of the Reports API login events and the Directory's last-login
  field), the executors that suspend such users and change their licenses, and the
  resumable batch audit of groups without owners or managers.

  The providers (Directory, License Manager, Reports, script properties, spreadsheet) are
  outside the scripts. What a provider answers is an argument of the model; what a script
  asks of a provider is part of its result: the log of mutating calls, the properties as
  an invocation leaves them, the report it emits. Dates are epoch milliseconds.
\<close>

section \<open>Values the scripts read from strings\<close>

text \<open>
  The scripts keep timestamps, counters and result tables as strings and read them back
  with \<^verbatim>\<open>new Date(s)\<close>, \<^verbatim>\<open>parseInt(s)\<close> and \<^verbatim>\<open>JSON.parse(s)\<close>.
  A string is kept here by what its reader makes of it: \<open>Blank\<close> is the empty string
  (falsy in JavaScript), \<open>Denotes v\<close> a non-empty string that the reader turns into
  \<open>v\<close>, \<open>Malformed\<close> a non-empty string the reader rejects (Invalid Date, NaN,
  SyntaxError). A missing property or field (\<^verbatim>\<open>undefined\<close>, \<^verbatim>\<open>null\<close>) is
  \<open>None\<close>.
\<close>

datatype 'a jstext = Blank | Denotes 'a | Malformed

text \<open>JavaScript truthiness of an optional string: \<^verbatim>\<open>if (x)\<close>.\<close>

fun truthy :: "'a jstext option \<Rightarrow> bool" where
  "truthy None = False"
| "truthy (Some Blank) = False"
| "truthy (Some (Denotes v)) = True"
| "truthy (Some Malformed) = True"

text \<open>
  \<^verbatim>\<open>new Date(s).getTime()\<close> in epoch milliseconds; \<open>None\<close> is NaN
  (the empty string and \<^verbatim>\<open>undefined\<close> give an Invalid Date too).
\<close>

fun getTime :: "int jstext option \<Rightarrow> int option" where
  "getTime (Some (Denotes t)) = Some t"
| "getTime _ = None"

text \<open>\<^verbatim>\<open>a >= b\<close> and \<^verbatim>\<open>a > b\<close> on numbers; a comparison with NaN is false.\<close>

fun num_ge :: "int option \<Rightarrow> int option \<Rightarrow> bool" where
  "num_ge (Some a) (Some b) = (b \<le> a)"
| "num_ge _ _ = False"

fun num_gt :: "int option \<Rightarrow> int option \<Rightarrow> bool" where
  "num_gt (Some a) (Some b) = (b < a)"
| "num_gt _ _ = False"

text \<open>\<^verbatim>\<open>String.prototype.toLowerCase\<close>, on the ASCII letters.\<close>

definition lower_char :: "char \<Rightarrow> char" where
  "lower_char c =
     (if 65 \<le> (of_char c :: nat) \<and> (of_char c :: nat) \<le> 90
      then char_of ((of_char c :: nat) + 32) else c)"

definition toLowerCase :: "string \<Rightarrow> string" where
  "toLowerCase s = map lower_char s"

text \<open>
  A paginated listing as the provider serves it to the successive calls of one
  \<^verbatim>\<open>do { ... } while (pageToken)\<close> loop: a call throws, or answers with a page that
  carries no \<^verbatim>\<open>nextPageToken\<close>, or with a page that carries one, followed by what the
  next call gets. The items of a page may be missing (\<^verbatim>\<open>response.items\<close> undefined).
\<close>

datatype 'a paged =
    Throws string
  | LastPage "'a list option"
  | MorePage "'a list option" "'a paged"

fun items_of :: "'a list option \<Rightarrow> 'a list" where
  "items_of None = []"
| "items_of (Some xs) = xs"

section \<open>Inactive users: the hybrid classifier\<close>

text \<open>
  The fields of a Directory user that the scripts read or write. \<open>fullName\<close> is
  \<^verbatim>\<open>user.name.fullName\<close> (\<open>None\<close> when \<^verbatim>\<open>user.name\<close> is missing),
  \<open>licenseString\<close> is attached by the scripts.
\<close>

record user =
  primaryEmail :: string
  fullName :: "string option"
  orgUnitPath :: "string option"
  lastLoginTime :: "int jstext option"
  suspended :: bool
  isAdmin :: bool
  isDelegatedAdmin :: bool
  licenseString :: "string option"

type_synonym loginMap = "string \<rightharpoonup> int jstext"

text \<open>\<^verbatim>\<open>checkIfUserInactive(user, reportsLoginData, cutoffDate)\<close> of the license-first audit.\<close>

definition checkIfUserInactive :: "user \<Rightarrow> loginMap \<Rightarrow> int \<Rightarrow> bool" where
  "checkIfUserInactive u reportsLoginData cutoffDate =
     (let userEmail = toLowerCase (primaryEmail u) in
      if truthy (reportsLoginData userEmail)
         \<and> num_ge (getTime (reportsLoginData userEmail)) (Some cutoffDate)
      then False
      else if truthy (lastLoginTime u)
         \<and> num_ge (getTime (lastLoginTime u)) (Some cutoffDate)
      then False
      else True)"

text \<open>
  The callback that \<^verbatim>\<open>getInactiveUsers\<close> of the auto-run audit passes to
  \<^verbatim>\<open>response.users.filter\<close>. \<open>None\<close>: the callback returned false (the user is
  ACTIVE and dropped). \<open>Some u'\<close>: it returned true (INACTIVE), and \<open>u'\<close> is the
  user object as the callback left it.
\<close>

definition inactiveFilter :: "loginMap \<Rightarrow> int \<Rightarrow> user \<Rightarrow> user option" where
  "inactiveFilter reportsLoginData cutoffDate u =
     (let userEmail = toLowerCase (primaryEmail u) in
      if truthy (reportsLoginData userEmail)
         \<and> num_ge (getTime (reportsLoginData userEmail)) (Some cutoffDate)
      then None
      else if truthy (lastLoginTime u)
         \<and> num_ge (getTime (lastLoginTime u)) (Some cutoffDate)
      then None
      else if truthy (reportsLoginData userEmail)
      then Some (u\<lparr>lastLoginTime := reportsLoginData userEmail\<rparr>)
      else Some u)"

text \<open>
  The user loop of \<^verbatim>\<open>getInactiveUsers\<close>: each page is filtered and appended; a call
  that throws ends the loop with the users collected so far.
\<close>

fun filterPages :: "loginMap \<Rightarrow> int \<Rightarrow> user paged \<Rightarrow> user list" where
  "filterPages m c (Throws e) = []"
| "filterPages m c (LastPage us) = List.map_filter (inactiveFilter m c) (items_of us)"
| "filterPages m c (MorePage us rest) =
     List.map_filter (inactiveFilter m c) (items_of us) @ filterPages m c rest"

text \<open>
  The cell \<^verbatim>\<open>user.lastLoginTime || 'Never'\<close> that \<^verbatim>\<open>exportToSheet\<close> writes in the
  column "Last Login Time".
\<close>

datatype login_cell = Never | LoginAt "int jstext"

fun lastLoginCell :: "int jstext option \<Rightarrow> login_cell" where
  "lastLoginCell None = Never"
| "lastLoginCell (Some Blank) = Never"
| "lastLoginCell (Some t) = LoginAt t"

subsection \<open>The login-activity resolver\<close>

text \<open>
  A login activity of the Reports API: \<open>actorEmail\<close> is \<^verbatim>\<open>activity.actor.email\<close>
  (\<open>None\<close> when the actor or its email is missing or empty), \<open>idTime\<close> is
  \<^verbatim>\<open>activity.id.time\<close>.
\<close>

record activity =
  actorEmail :: "string option"
  idTime :: "int jstext"

definition retentionMs :: int where
  "retentionMs = 180 * 24 * 60 * 60 * 1000"

text \<open>
  \<^verbatim>\<open>maxReportsHistory\<close> and \<^verbatim>\<open>startDate\<close> of \<^verbatim>\<open>getLoginActivityFromReports\<close>, as
  epoch milliseconds; \<open>now\<close> is the clock reading \<^verbatim>\<open>new Date()\<close>. Two dates are
  compared by their milliseconds.
\<close>

definition maxReportsHistory :: "int \<Rightarrow> int" where
  "maxReportsHistory now = now - retentionMs"

definition startDate :: "int \<Rightarrow> int \<Rightarrow> int" where
  "startDate now cutoffDate =
     (if cutoffDate > maxReportsHistory now then cutoffDate else maxReportsHistory now)"

text \<open>The body of \<^verbatim>\<open>response.items.forEach\<close>: keep the most recent time per actor.\<close>

definition recordActivity :: "loginMap \<Rightarrow> activity \<Rightarrow> loginMap" where
  "recordActivity loginMap a =
     (case actorEmail a of
        None \<Rightarrow> loginMap
      | Some e \<Rightarrow>
          if e = [] then loginMap
          else
            let email = toLowerCase e in
            if \<not> truthy (loginMap email)
               \<or> num_gt (getTime (Some (idTime a))) (getTime (loginMap email))
            then loginMap(email \<mapsto> idTime a)
            else loginMap)"

fun collectLogins :: "loginMap \<Rightarrow> activity paged \<Rightarrow> loginMap" where
  "collectLogins m (Throws e) = m"
| "collectLogins m (LastPage xs) = foldl recordActivity m (items_of xs)"
| "collectLogins m (MorePage xs rest) =
     collectLogins (foldl recordActivity m (items_of xs)) rest"

text \<open>
  \<^verbatim>\<open>getLoginActivityFromReports(cutoffDate)\<close>. \<open>formatDate\<close> is
  \<^verbatim>\<open>Utilities.formatDate(d, 'GMT', "yyyy-MM-dd'T'HH:mm:ss'Z'")\<close>, the platform's
  rendering of a date as a string of whole seconds, and \<open>activities\<close> is the Reports
  provider: what \<^verbatim>\<open>AdminReports.Activities.list\<close> serves for the \<^verbatim>\<open>startTime\<close>
  and \<^verbatim>\<open>endTime\<close> strings it is given. A call that throws ends the loop with the
  logins collected so far.
\<close>

definition getLoginActivityFromReports ::
  "(int \<Rightarrow> 's) \<Rightarrow> ('s \<Rightarrow> 's \<Rightarrow> activity paged) \<Rightarrow> int \<Rightarrow> int \<Rightarrow> loginMap" where
  "getLoginActivityFromReports formatDate activities now cutoffDate =
     (let startDateStr = formatDate (startDate now cutoffDate);
          endDateStr = formatDate now
      in collectLogins Map.empty (activities startDateStr endDateStr))"

text \<open>\<^verbatim>\<open>getInactiveUsers(cutoffDate)\<close> of the auto-run audit.\<close>

definition getInactiveUsers ::
  "(int \<Rightarrow> 's) \<Rightarrow> ('s \<Rightarrow> 's \<Rightarrow> activity paged) \<Rightarrow> user paged \<Rightarrow> int \<Rightarrow> int \<Rightarrow> user list" where
  "getInactiveUsers formatDate activities usersList now cutoffDate =
     (let reportsLoginData = getLoginActivityFromReports formatDate activities now cutoffDate
      in filterPages reportsLoginData cutoffDate usersList)"

text \<open>
  Effective last-login in the words of the specification: the later of the most recent
  login event of the bounded window and the directory's own field; \<open>None\<close> when
  both are absent.
\<close>

fun spec_effectiveLastLogin :: "int option \<Rightarrow> int option \<Rightarrow> int option" where
  "spec_effectiveLastLogin None None = None"
| "spec_effectiveLastLogin (Some a) None = Some a"
| "spec_effectiveLastLogin None (Some b) = Some b"
| "spec_effectiveLastLogin (Some a) (Some b) = Some (max a b)"

text \<open>
  Notions to state what the loops compute: the items of the pages a listing serves before
  a call throws; the login times, among some activities, of the actor whose lower-cased
  email is \<open>who\<close>; and the latest of a current time and a list of times.
\<close>

fun served :: "'a paged \<Rightarrow> 'a list" where
  "served (Throws e) = []"
| "served (LastPage xs) = items_of xs"
| "served (MorePage xs rest) = items_of xs @ served rest"

fun loginTimes :: "string \<Rightarrow> activity list \<Rightarrow> int list" where
  "loginTimes who [] = []"
| "loginTimes who (a # as) =
     (case (actorEmail a, idTime a) of
        (Some e, Denotes t) \<Rightarrow>
          if e \<noteq> [] \<and> toLowerCase e = who then t # loginTimes who as
          else loginTimes who as
      | _ \<Rightarrow> loginTimes who as)"

fun latest :: "int option \<Rightarrow> int list \<Rightarrow> int option" where
  "latest None [] = None"
| "latest None (t # ts) = latest (Some t) ts"
| "latest (Some t0) [] = Some t0"
| "latest (Some t0) (t # ts) = latest (Some (max t0 t)) ts"

section \<open>Suspension and license management: the action executor\<close>

record config =
  TARGET_SKU_ID :: string
  CLOUD_IDENTITY_FREE_SKU_ID :: string
  PRODUCT_ID :: string
  DRY_RUN :: bool
  ASSIGN_CLOUD_IDENTITY_FREE :: bool
  MAX_SUSPEND_COUNT :: nat
  EXCLUDED_OU_PATHS :: "string list"
  EXCLUDE_ADMINS :: bool

definition SKU_CATALOG :: "(string \<times> string) list" where
  "SKU_CATALOG =
     [(''Enterprise Plus'', ''1010020020''),
      (''Enterprise Standard'', ''1010020028''),
      (''Business Starter'', ''1010020027''),
      (''Business Standard'', ''1010020028''),
      (''Business Plus'', ''1010020025''),
      (''Enterprise Essentials'', ''1010060003''),
      (''Essentials Starter'', ''1010060001''),
      (''Cloud Identity Free'', ''1010010001''),
      (''Cloud Identity Premium'', ''1010050001''),
      (''Education Plus Legacy (Student)'', ''1010310003''),
      (''Google-Apps-For-Education'', ''101031''),
      (''Google-Vault'', ''1010330003''),
      (''Google-Vault-Former-Employee'', ''1010330004'')]"

definition getSkuName :: "string \<Rightarrow> string" where
  "getSkuName skuId =
     (case find (\<lambda>(skuName, sku). sku = skuId) SKU_CATALOG of
        Some (skuName, sku) \<Rightarrow> skuName
      | None \<Rightarrow> skuId)"

text \<open>
  The mutating provider calls: \<^verbatim>\<open>AdminDirectory.Users.update({suspended: true}, userEmail)\<close>,
  \<^verbatim>\<open>LicenseAssignments.remove(productId, skuId, userEmail)\<close> and
  \<^verbatim>\<open>LicenseAssignments.insert({userId: userEmail}, productId, skuId)\<close>.
\<close>

datatype call =
    UsersUpdate string
  | LicenseRemove string string string
  | LicenseInsert string string string

fun target :: "call \<Rightarrow> string" where
  "target (UsersUpdate userEmail) = userEmail"
| "target (LicenseRemove productId skuId userEmail) = userEmail"
| "target (LicenseInsert productId skuId userEmail) = userEmail"

text \<open>
  The provider decides each call from the calls made before it: \<open>None\<close> when the call
  returns, \<open>Some msg\<close> when it throws an error with that message. The executor's state
  is the log of the calls it has made, a failed call included.
\<close>

type_synonym provider = "call list \<Rightarrow> call \<Rightarrow> string option"

text \<open>
  The status texts of the result rows: \<^verbatim>\<open>'Pending'\<close>,
  \<^verbatim>\<open>'DRY RUN - Would suspend'\<close>, \<^verbatim>\<open>'DRY RUN - Would remove <sku>'\<close>,
  \<^verbatim>\<open>'DRY RUN - Would assign <sku>'\<close>, \<^verbatim>\<open>'Skipped (disabled in config)'\<close>,
  \<^verbatim>\<open>'Successfully suspended'\<close>, \<^verbatim>\<open>'Failed: <message>'\<close>, \<^verbatim>\<open>'Removed <sku>'\<close>,
  \<^verbatim>\<open>'Assigned <sku>'\<close> and \<^verbatim>\<open>'Failed to suspend'\<close> (each after its pictogram).
\<close>

datatype status =
    Pending
  | DryRunWouldSuspend
  | DryRunWouldRemove string
  | DryRunWouldAssign string
  | SkippedDisabled
  | SuccessfullySuspended
  | Failed string
  | Removed string
  | Assigned string
  | FailedToSuspend

text \<open>\<^verbatim>\<open>x || d\<close> on an optional string: a missing or empty string gives the default.\<close>

fun orElse :: "string option \<Rightarrow> string \<Rightarrow> string" where
  "orElse None d = d"
| "orElse (Some s) d = (if s = [] then d else s)"

subsection \<open>Suspend and manage licenses\<close>

record result =
  email :: string
  name :: string
  res_orgUnitPath :: string
  res_lastLoginTime :: login_cell
  originalLicenses :: "string option"
  res_suspended :: bool
  suspensionStatus :: status
  licenseRemoved :: bool
  licenseRemovalStatus :: status
  licenseAssigned :: bool
  licenseAssignmentStatus :: status
  newLicenses :: string
  error :: "string option"

text \<open>The \<^verbatim>\<open>result\<close> object as \<^verbatim>\<open>suspendAndChangeLicenses\<close> creates it for a user.\<close>

definition pendingResult :: "user \<Rightarrow> result" where
  "pendingResult u =
     \<lparr>email = primaryEmail u,
      name = (case fullName u of None \<Rightarrow> ''N/A'' | Some n \<Rightarrow> n),
      res_orgUnitPath = orElse (orgUnitPath u) ''/'',
      res_lastLoginTime = lastLoginCell (lastLoginTime u),
      originalLicenses = licenseString u,
      res_suspended = False,
      suspensionStatus = Pending,
      licenseRemoved = False,
      licenseRemovalStatus = Pending,
      licenseAssigned = False,
      licenseAssignmentStatus = Pending,
      newLicenses = [],
      error = None\<rparr>"

text \<open>\<^verbatim>\<open>if (!result.error) result.error = e.message\<close>.\<close>

definition keepFirstError :: "string \<Rightarrow> result \<Rightarrow> result" where
  "keepFirstError msg r = (if orElse (error r) [] = [] then r\<lparr>error := Some msg\<rparr> else r)"

text \<open>The dry-run branch: the statuses say what would be done, no call is made.\<close>

definition dryRun :: "config \<Rightarrow> result \<Rightarrow> result" where
  "dryRun cfg r =
     (let r1 = r\<lparr>suspensionStatus := DryRunWouldSuspend,
                 licenseRemovalStatus := DryRunWouldRemove (getSkuName (TARGET_SKU_ID cfg))\<rparr>
      in if ASSIGN_CLOUD_IDENTITY_FREE cfg
         then r1\<lparr>licenseAssignmentStatus :=
                    DryRunWouldAssign (getSkuName (CLOUD_IDENTITY_FREE_SKU_ID cfg)),
                  newLicenses := getSkuName (CLOUD_IDENTITY_FREE_SKU_ID cfg)\<rparr>
         else r1\<lparr>licenseAssignmentStatus := SkippedDisabled,
                  newLicenses := ''No license assigned''\<rparr>)"

text \<open>STEP 3: assign the Cloud Identity Free license, if enabled.\<close>

definition step3_assign ::
  "config \<Rightarrow> provider \<Rightarrow> string \<Rightarrow> result \<Rightarrow> call list \<Rightarrow> result \<times> call list" where
  "step3_assign cfg prov userEmail r log =
     (if ASSIGN_CLOUD_IDENTITY_FREE cfg
      then
        let c = LicenseInsert (PRODUCT_ID cfg) (CLOUD_IDENTITY_FREE_SKU_ID cfg) userEmail in
        case prov log c of
          None \<Rightarrow>
            (r\<lparr>licenseAssigned := True,
               licenseAssignmentStatus := Assigned (getSkuName (CLOUD_IDENTITY_FREE_SKU_ID cfg)),
               newLicenses := getSkuName (CLOUD_IDENTITY_FREE_SKU_ID cfg)\<rparr>,
             log @ [c])
        | Some msg \<Rightarrow>
            ((keepFirstError msg (r\<lparr>licenseAssignmentStatus := Failed msg\<rparr>))
               \<lparr>newLicenses := ''License assignment failed''\<rparr>,
             log @ [c])
      else
        (r\<lparr>licenseAssignmentStatus := SkippedDisabled,
           newLicenses := ''No license assigned''\<rparr>,
         log))"

text \<open>STEP 2: remove the target license; whatever the outcome, STEP 3 follows.\<close>

definition step2_remove ::
  "config \<Rightarrow> provider \<Rightarrow> string \<Rightarrow> result \<Rightarrow> call list \<Rightarrow> result \<times> call list" where
  "step2_remove cfg prov userEmail r log =
     (let c = LicenseRemove (PRODUCT_ID cfg) (TARGET_SKU_ID cfg) userEmail in
      case prov log c of
        None \<Rightarrow>
          step3_assign cfg prov userEmail
            (r\<lparr>licenseRemoved := True,
               licenseRemovalStatus := Removed (getSkuName (TARGET_SKU_ID cfg))\<rparr>)
            (log @ [c])
      | Some msg \<Rightarrow>
          step3_assign cfg prov userEmail
            (keepFirstError msg (r\<lparr>licenseRemovalStatus := Failed msg\<rparr>))
            (log @ [c]))"

text \<open>
  The callback of \<^verbatim>\<open>users.forEach\<close> in \<^verbatim>\<open>suspendAndChangeLicenses\<close>: the dry-run
  branch, or STEP 1 (suspend; a failure pushes the result and returns) and the steps
  after it. It yields the result pushed for the user and the log of calls.
\<close>

definition changeLicensesOf ::
  "config \<Rightarrow> provider \<Rightarrow> call list \<Rightarrow> user \<Rightarrow> result \<times> call list" where
  "changeLicensesOf cfg prov log u =
     (let userEmail = primaryEmail u; r = pendingResult u in
      if DRY_RUN cfg then (dryRun cfg r, log)
      else
        let c = UsersUpdate userEmail in
        case prov log c of
          Some msg \<Rightarrow> (r\<lparr>suspensionStatus := Failed msg, error := Some msg\<rparr>, log @ [c])
        | None \<Rightarrow>
            step2_remove cfg prov userEmail
              (r\<lparr>res_suspended := True, suspensionStatus := SuccessfullySuspended\<rparr>)
              (log @ [c]))"

fun suspendAndChangeLicenses ::
  "config \<Rightarrow> provider \<Rightarrow> user list \<Rightarrow> call list \<Rightarrow> result list \<times> call list" where
  "suspendAndChangeLicenses cfg prov [] log = ([], log)"
| "suspendAndChangeLicenses cfg prov (u # us) log =
     (let (r, log1) = changeLicensesOf cfg prov log u;
          (rs, log2) = suspendAndChangeLicenses cfg prov us log1
      in (r # rs, log2))"

subsection \<open>Suspend inactive Enterprise Plus users\<close>

record suspension =
  s_email :: string
  s_name :: string
  s_orgUnitPath :: string
  s_lastLoginTime :: login_cell
  s_licenseString :: "string option"
  s_suspended :: bool
  s_status :: status
  s_error :: "string option"

text \<open>The callback of \<^verbatim>\<open>users.forEach\<close> in \<^verbatim>\<open>suspendUsers\<close>.\<close>

definition suspendOne ::
  "config \<Rightarrow> provider \<Rightarrow> call list \<Rightarrow> user \<Rightarrow> suspension \<times> call list" where
  "suspendOne cfg prov log u =
     (let userEmail = primaryEmail u;
          r = \<lparr>s_email = userEmail,
               s_name = (case fullName u of None \<Rightarrow> ''N/A'' | Some n \<Rightarrow> n),
               s_orgUnitPath = orElse (orgUnitPath u) ''/'',
               s_lastLoginTime = lastLoginCell (lastLoginTime u),
               s_licenseString = licenseString u,
               s_suspended = False,
               s_status = Pending,
               s_error = None\<rparr>
      in
      if DRY_RUN cfg then (r\<lparr>s_status := DryRunWouldSuspend, s_suspended := False\<rparr>, log)
      else
        let c = UsersUpdate userEmail in
        case prov log c of
          None \<Rightarrow> (r\<lparr>s_status := SuccessfullySuspended, s_suspended := True\<rparr>, log @ [c])
        | Some msg \<Rightarrow> (r\<lparr>s_status := FailedToSuspend, s_error := Some msg\<rparr>, log @ [c]))"

fun suspendUsers ::
  "config \<Rightarrow> provider \<Rightarrow> user list \<Rightarrow> call list \<Rightarrow> suspension list \<times> call list" where
  "suspendUsers cfg prov [] log = ([], log)"
| "suspendUsers cfg prov (u # us) log =
     (let (r, log1) = suspendOne cfg prov log u;
          (rs, log2) = suspendUsers cfg prov us log1
      in (r # rs, log2))"

subsection \<open>The safety limit\<close>

text \<open>
  Step 4 of \<^verbatim>\<open>suspendAndManageLicenses\<close> and of \<^verbatim>\<open>suspendInactiveEnterpriseUsers\<close>:
  \<^verbatim>\<open>if (users.length > MAX_SUSPEND_COUNT) users.splice(MAX_SUSPEND_COUNT)\<close>, which
  removes the elements from that index on. The limit is a count.
\<close>

definition applySafetyLimit :: "config \<Rightarrow> user list \<Rightarrow> user list" where
  "applySafetyLimit cfg usersToProcess =
     (if length usersToProcess > MAX_SUSPEND_COUNT cfg
      then take (MAX_SUSPEND_COUNT cfg) usersToProcess
      else usersToProcess)"

subsection \<open>The exclusion rules\<close>

text \<open>
  \<^verbatim>\<open>shouldExcludeUser(user)\<close> and \<^verbatim>\<open>getExclusionReason(user)\<close>;
  \<^verbatim>\<open>userOU.startsWith(excludedOU)\<close> is \<open>prefix excludedOU userOU\<close>. The reasons
  are the texts \<^verbatim>\<open>'Admin user'\<close>, \<^verbatim>\<open>'In excluded OU: <path>'\<close> and
  \<^verbatim>\<open>'Unknown'\<close>.
\<close>

definition shouldExcludeUser :: "config \<Rightarrow> user \<Rightarrow> bool" where
  "shouldExcludeUser cfg u =
     (if EXCLUDE_ADMINS cfg \<and> (isAdmin u \<or> isDelegatedAdmin u) then True
      else if EXCLUDED_OU_PATHS cfg \<noteq> []
              \<and> list_ex (\<lambda>excludedOU. prefix excludedOU (orElse (orgUnitPath u) ''/''))
                    (EXCLUDED_OU_PATHS cfg)
      then True
      else False)"

definition getExclusionReason :: "config \<Rightarrow> user \<Rightarrow> string" where
  "getExclusionReason cfg u =
     (if EXCLUDE_ADMINS cfg \<and> (isAdmin u \<or> isDelegatedAdmin u) then ''Admin user''
      else if EXCLUDED_OU_PATHS cfg \<noteq> []
      then (case find (\<lambda>excludedOU. prefix excludedOU (orElse (orgUnitPath u) ''/''))
                   (EXCLUDED_OU_PATHS cfg) of
              None \<Rightarrow> ''Unknown''
            | Some matchedOU \<Rightarrow>
                if matchedOU \<noteq> [] then ''In excluded OU: '' @ matchedOU else ''Unknown'')
      else ''Unknown'')"

subsection \<open>Notions used to state the properties of the executors\<close>

text \<open>The suspension calls among the calls of a log.\<close>

fun isUsersUpdate :: "call \<Rightarrow> bool" where
  "isUsersUpdate (UsersUpdate userEmail) = True"
| "isUsersUpdate (LicenseRemove productId skuId userEmail) = False"
| "isUsersUpdate (LicenseInsert productId skuId userEmail) = False"

text \<open>
  The calls of the three steps for a user, in order: the update; when the provider lets
  the update return, the license removal, and after it the assignment when it is enabled.
\<close>

definition stepsOf :: "config \<Rightarrow> provider \<Rightarrow> call list \<Rightarrow> user \<Rightarrow> call list" where
  "stepsOf cfg prov log u =
     UsersUpdate (primaryEmail u)
     # (if prov log (UsersUpdate (primaryEmail u)) = None
        then LicenseRemove (PRODUCT_ID cfg) (TARGET_SKU_ID cfg) (primaryEmail u)
             # (if ASSIGN_CLOUD_IDENTITY_FREE cfg
                then [LicenseInsert (PRODUCT_ID cfg) (CLOUD_IDENTITY_FREE_SKU_ID cfg)
                        (primaryEmail u)]
                else [])
        else [])"

text \<open>
  The messages of the errors thrown when the calls \<open>cs\<close> are made one after the other
  from the log \<open>log\<close>, in the order of the calls.
\<close>

fun thrown :: "provider \<Rightarrow> call list \<Rightarrow> call list \<Rightarrow> string list" where
  "thrown prov log [] = []"
| "thrown prov log (c # cs) =
     (case prov log c of None \<Rightarrow> [] | Some msg \<Rightarrow> [msg]) @ thrown prov (log @ [c]) cs"

text \<open>The first message that is not the empty string; the empty string when there is none.\<close>

definition firstNonEmpty :: "string list \<Rightarrow> string" where
  "firstNonEmpty msgs =
     (case filter (\<lambda>msg. msg \<noteq> []) msgs of [] \<Rightarrow> [] | msg # rest \<Rightarrow> msg)"

section \<open>Groups audit: batch processing with a checkpoint\<close>

subsection \<open>Numbers and stored texts\<close>

text \<open>
  A JavaScript number that is an integer or NaN (\<open>None\<close>), with the operations the
  audit applies to its index.
\<close>

fun num_add :: "int option \<Rightarrow> int \<Rightarrow> int option" where
  "num_add None n = None"
| "num_add (Some a) n = Some (a + n)"

fun Math_min :: "int option \<Rightarrow> int \<Rightarrow> int option" where
  "Math_min None n = None"
| "Math_min (Some a) n = Some (min a n)"

text \<open>The conversion of an index argument to an integer: NaN counts as 0.\<close>

fun toInteger :: "int option \<Rightarrow> int" where
  "toInteger None = 0"
| "toInteger (Some a) = a"

text \<open>
  \<^verbatim>\<open>Array.prototype.slice(start, end)\<close>: a negative index counts from the end, and
  both indices are clamped to the array.
\<close>

definition slice :: "'a list \<Rightarrow> int option \<Rightarrow> int option \<Rightarrow> 'a list" where
  "slice xs start fin =
     (let len = int (length xs);
          relStart = toInteger start;
          k = (if relStart < 0 then max (len + relStart) 0 else min relStart len);
          relEnd = toInteger fin;
          final = (if relEnd < 0 then max (len + relEnd) 0 else min relEnd len)
      in take (nat (final - k)) (drop (nat k) xs))"

text \<open>
  \<^verbatim>\<open>x || d\<close> on a stored text, \<^verbatim>\<open>parseInt\<close>, \<^verbatim>\<open>n.toString()\<close> (the text
  \<^verbatim>\<open>'NaN'\<close> reads back as NaN), \<^verbatim>\<open>JSON.parse\<close> (it throws a SyntaxError on the
  empty string and on a text that is not JSON) and \<^verbatim>\<open>JSON.stringify\<close>.
\<close>

fun orText :: "'a jstext option \<Rightarrow> 'a jstext \<Rightarrow> 'a jstext" where
  "orText None d = d"
| "orText (Some Blank) d = d"
| "orText (Some t) d = t"

fun parseInt :: "int jstext \<Rightarrow> int option" where
  "parseInt (Denotes i) = Some i"
| "parseInt Blank = None"
| "parseInt Malformed = None"

fun toString :: "int option \<Rightarrow> int jstext" where
  "toString (Some i) = Denotes i"
| "toString None = Malformed"

fun JSON_parse :: "'a jstext \<Rightarrow> string + 'a" where
  "JSON_parse (Denotes v) = Inr v"
| "JSON_parse Blank = Inl ''SyntaxError: Unexpected end of JSON input''"
| "JSON_parse Malformed = Inl ''SyntaxError: Unexpected token''"

definition JSON_stringify :: "'a \<Rightarrow> 'a jstext" where
  "JSON_stringify v = Denotes v"

subsection \<open>Groups, roles and results\<close>

record group =
  grp_name :: string
  grp_email :: string
  grp_description :: "string option"
  grp_directMembersCount :: "nat option"
  grp_adminCreated :: "bool option"

datatype role = OWNER | MANAGER

record audit_result =
  groupName :: string
  groupEmail :: string
  description :: string
  directMembersCount :: nat
  adminCreated :: bool
  hasOwner :: bool
  hasManager :: bool
  missingRoles :: string

record gconfig =
  BATCH_SIZE :: nat
  MAX_EXECUTION_TIME :: int

text \<open>
  The script properties of the audit: \<^verbatim>\<open>processedIndex\<close>, \<^verbatim>\<open>auditResults\<close>
  and \<^verbatim>\<open>groupsCache\<close>; \<open>None\<close> is a property that is not set.
\<close>

record store =
  processedIndex :: "int jstext option"
  auditResults :: "audit_result list jstext option"
  groupsCache :: "group list jstext option"

text \<open>
  What one invocation meets: the pages \<^verbatim>\<open>AdminDirectory.Groups.list\<close> serves, the
  pages \<^verbatim>\<open>AdminDirectory.Members.list\<close> serves for a group and a role, the elapsed
  milliseconds \<^verbatim>\<open>new Date().getTime() - startTime\<close> read at the i-th pass of the batch
  loop, and whether \<^verbatim>\<open>generateFinalReport\<close> throws.
\<close>

record env =
  groupsList :: "group paged"
  membersList :: "string \<Rightarrow> role \<Rightarrow> string paged"
  elapsedMs :: "nat \<Rightarrow> int"
  reportFails :: "string option"

text \<open>
  What one invocation does besides updating the properties: it ends in progress, or it
  emits the final report (the groups with issues and the number of groups scanned), or
  an error escapes from it.
\<close>

datatype outcome =
    InProgress
  | Completed "audit_result list" nat
  | Raised string

subsection \<open>The functions of the batch audit\<close>

text \<open>The loop of \<^verbatim>\<open>checkGroupHasRole\<close> over the pages of one listing.\<close>

fun hasMemberIn :: "string paged \<Rightarrow> bool" where
  "hasMemberIn (Throws e) = False"
| "hasMemberIn (LastPage ms) = (items_of ms \<noteq> [])"
| "hasMemberIn (MorePage ms rest) = (if items_of ms \<noteq> [] then True else hasMemberIn rest)"

definition checkGroupHasRole :: "env \<Rightarrow> string \<Rightarrow> role \<Rightarrow> bool" where
  "checkGroupHasRole e grpEmail r = hasMemberIn (membersList e grpEmail r)"

text \<open>The fetch loop of \<^verbatim>\<open>getAllGroups\<close>: a call that throws ends it.\<close>

fun fetchGroups :: "group paged \<Rightarrow> group list" where
  "fetchGroups (Throws e) = []"
| "fetchGroups (LastPage gs) = items_of gs"
| "fetchGroups (MorePage gs rest) = items_of gs @ fetchGroups rest"

definition getAllGroups :: "env \<Rightarrow> store \<Rightarrow> (string + group list) \<times> store" where
  "getAllGroups e s =
     (if truthy (groupsCache s)
      then (JSON_parse (orText (groupsCache s) Blank), s)
      else
        let groups = fetchGroups (groupsList e)
        in (Inr groups, s\<lparr>groupsCache := Some (JSON_stringify groups)\<rparr>))"

text \<open>The body of the batch loop for one group: the check of both roles and the push.\<close>

definition auditGroup :: "env \<Rightarrow> group \<Rightarrow> audit_result list" where
  "auditGroup e g =
     (let owner = checkGroupHasRole e (grp_email g) OWNER;
          manager = checkGroupHasRole e (grp_email g) MANAGER
      in if \<not> owner \<or> \<not> manager
         then [\<lparr>groupName = grp_name g,
                groupEmail = grp_email g,
                description = orElse (grp_description g) ''N/A'',
                directMembersCount = (case grp_directMembersCount g of None \<Rightarrow> 0 | Some n \<Rightarrow> n),
                adminCreated = (case grp_adminCreated g of None \<Rightarrow> False | Some b \<Rightarrow> b),
                hasOwner = owner,
                hasManager = manager,
                missingRoles =
                  (if \<not> owner \<and> \<not> manager then ''OWNER, MANAGER''
                   else if \<not> owner then ''OWNER'' else ''MANAGER'')\<rparr>]
         else [])"

text \<open>
  The batch loop \<^verbatim>\<open>for (let i = 0; i < batchGroups.length; i++)\<close>, from pass \<open>i\<close>
  on the groups still to do: it stops when the time limit is passed, and yields the
  results pushed and \<^verbatim>\<open>currentIndex\<close>.
\<close>

fun batchLoop :: "gconfig \<Rightarrow> env \<Rightarrow> group list \<Rightarrow> nat \<Rightarrow> audit_result list \<times> nat" where
  "batchLoop cfg e [] i = ([], i)"
| "batchLoop cfg e (g # gs) i =
     (if elapsedMs e i > 1000 * MAX_EXECUTION_TIME cfg then ([], i)
      else
        let (rs, currentIndex) = batchLoop cfg e gs (Suc i)
        in (auditGroup e g @ rs, currentIndex))"

text \<open>
  The two loads of \<^verbatim>\<open>auditGroupsWithoutOwners\<close> and \<^verbatim>\<open>checkAuditProgress\<close>:
  \<^verbatim>\<open>parseInt(getProperty('processedIndex') || '0')\<close> and
  \<^verbatim>\<open>JSON.parse(getProperty('auditResults') || '[]')\<close>.
\<close>

definition loadIndex :: "store \<Rightarrow> int option" where
  "loadIndex s = parseInt (orText (processedIndex s) (Denotes 0))"

definition loadResults :: "store \<Rightarrow> string + audit_result list" where
  "loadResults s = JSON_parse (orText (auditResults s) (Denotes []))"

text \<open>
  \<^verbatim>\<open>auditGroupsWithoutOwners()\<close> after its loads: the batch range, the batch loop, the
  save of the progress and the check for completion. \<open>s1\<close> holds the properties at
  that point, \<open>index0\<close> and \<open>results0\<close> are \<^verbatim>\<open>processedIndex\<close> and
  \<^verbatim>\<open>allResults\<close> as loaded.
\<close>

definition runBatch ::
  "gconfig \<Rightarrow> env \<Rightarrow> group list \<Rightarrow> store \<Rightarrow> int option \<Rightarrow> audit_result list
     \<Rightarrow> store \<times> outcome" where
  "runBatch cfg e allGroups s1 index0 results0 =
     (let totalGroups = int (length allGroups);
          batchStart = index0;
          batchEnd = Math_min (num_add index0 (int (BATCH_SIZE cfg))) totalGroups;
          batchGroups = slice allGroups batchStart batchEnd;
          (batchResults, currentIndex) = batchLoop cfg e batchGroups 0;
          allResults = results0 @ batchResults;
          index1 = num_add batchStart (int currentIndex);
          s2 = s1\<lparr>processedIndex := Some (toString index1),
                  auditResults := Some (JSON_stringify allResults)\<rparr>
      in if num_ge index1 (Some totalGroups)
         then (case reportFails e of
                 Some err \<Rightarrow> (s2, Raised err)
               | None \<Rightarrow>
                   (s2\<lparr>processedIndex := None, auditResults := None\<rparr>,
                    Completed allResults (length allGroups)))
         else (s2, InProgress))"

text \<open>
  \<^verbatim>\<open>auditGroupsWithoutOwners()\<close>: the properties as the invocation leaves them, and
  its outcome. An error thrown by a load escapes at once.
\<close>

definition auditGroupsWithoutOwners :: "gconfig \<Rightarrow> env \<Rightarrow> store \<Rightarrow> store \<times> outcome" where
  "auditGroupsWithoutOwners cfg e s0 =
     (case getAllGroups e s0 of
        (Inl err, s1) \<Rightarrow> (s1, Raised err)
      | (Inr allGroups, s1) \<Rightarrow>
          let index0 = loadIndex s1
          in case loadResults s1 of
               Inl err \<Rightarrow> (s1, Raised err)
             | Inr results0 \<Rightarrow> runBatch cfg e allGroups s1 index0 results0)"

text \<open>\<^verbatim>\<open>resetAudit()\<close> deletes the three properties.\<close>

definition resetAudit :: "store \<Rightarrow> store" where
  "resetAudit s = s\<lparr>processedIndex := None, auditResults := None, groupsCache := None\<rparr>"

subsection \<open>Notions used to state the properties of the audit\<close>



text \<open>Successive invocations, each with what it meets, threading the properties.\<close>

fun auditRuns :: "gconfig \<Rightarrow> env list \<Rightarrow> store \<Rightarrow> store" where
  "auditRuns cfg [] s = s"
| "auditRuns cfg (e # es) s = auditRuns cfg es (fst (auditGroupsWithoutOwners cfg e s))"

text \<open>
  The checkpoint is in order: without a cached list there is no index and no results;
  with one, the index (when set) lies between 0 and the length of the cached list, and
  the results (when set) are a stored array.
\<close>

definition checkpointOk :: "store \<Rightarrow> bool" where
  "checkpointOk s =
     (case groupsCache s of
        None \<Rightarrow> processedIndex s = None \<and> auditResults s = None
      | Some (Denotes gs) \<Rightarrow>
          (case processedIndex s of
             None \<Rightarrow> True
           | Some (Denotes i) \<Rightarrow> 0 \<le> i \<and> i \<le> int (length gs)
           | Some _ \<Rightarrow> False)
          \<and> (case auditResults s of
               None \<Rightarrow> True
             | Some (Denotes rs) \<Rightarrow> True
             | Some _ \<Rightarrow> False)
      | Some _ \<Rightarrow> False)"

section \<open>Concrete scenarios\<close>

text \<open>Users, configurations and providers at which the theorems below are exercised.\<close>

definition bob :: user where
  "bob = \<lparr>primaryEmail = ''Bob@Example.com'', fullName = Some ''Bob'',
          orgUnitPath = Some ''/Sales'', lastLoginTime = Some (Denotes 1700000000000),
          suspended = False, isAdmin = False, isDelegatedAdmin = False,
          licenseString = None\<rparr>"

definition carol :: user where
  "carol = \<lparr>primaryEmail = ''carol@example.com'', fullName = None,
          orgUnitPath = None, lastLoginTime = None,
          suspended = False, isAdmin = False, isDelegatedAdmin = False,
          licenseString = None\<rparr>"

definition dave :: user where
  "dave = \<lparr>primaryEmail = ''dave@example.com'', fullName = Some ''Dave'',
          orgUnitPath = Some ''/'', lastLoginTime = Some (Denotes 1740787200500),
          suspended = False, isAdmin = False, isDelegatedAdmin = False,
          licenseString = None\<rparr>"

definition erin :: user where
  "erin = \<lparr>primaryEmail = ''erin@example.com'', fullName = Some ''Erin'',
          orgUnitPath = Some ''/Sales'', lastLoginTime = None,
          suspended = False, isAdmin = False, isDelegatedAdmin = False,
          licenseString = Some ''Enterprise Plus''\<rparr>"

definition frank :: user where
  "frank = \<lparr>primaryEmail = ''frank@example.com'', fullName = Some ''Frank'',
          orgUnitPath = Some ''/Sales'', lastLoginTime = Some (Denotes 1700000000000),
          suspended = False, isAdmin = False, isDelegatedAdmin = False,
          licenseString = Some ''Enterprise Plus''\<rparr>"

definition gina :: user where
  "gina = \<lparr>primaryEmail = ''gina@example.com'', fullName = None,
          orgUnitPath = None, lastLoginTime = Some (Denotes 1690000000000),
          suspended = False, isAdmin = False, isDelegatedAdmin = False,
          licenseString = Some ''Enterprise Plus''\<rparr>"

text \<open>A live configuration with license assignment enabled and a cap of two.\<close>

definition cfgLive :: config where
  "cfgLive = \<lparr>TARGET_SKU_ID = ''1010020020'', CLOUD_IDENTITY_FREE_SKU_ID = ''1010010001'',
              PRODUCT_ID = ''Google-Apps'', DRY_RUN = False,
              ASSIGN_CLOUD_IDENTITY_FREE = True, MAX_SUSPEND_COUNT = 2,
              EXCLUDED_OU_PATHS = [''/LH - legal hold''], EXCLUDE_ADMINS = True\<rparr>"

text \<open>The dry-run configuration, otherwise as the script ships it.\<close>

definition cfgDry :: config where
  "cfgDry = \<lparr>TARGET_SKU_ID = ''1010020020'', CLOUD_IDENTITY_FREE_SKU_ID = ''1010010001'',
             PRODUCT_ID = ''Google-Apps'', DRY_RUN = True,
             ASSIGN_CLOUD_IDENTITY_FREE = False, MAX_SUSPEND_COUNT = 50,
             EXCLUDED_OU_PATHS = [], EXCLUDE_ADMINS = True\<rparr>"

text \<open>
  Providers: every call returns; the update throws; the license removal throws; the
  license assignment throws.
\<close>

definition provOk :: provider where
  "provOk log c = None"

definition provUpdateFails :: provider where
  "provUpdateFails log c =
     (case c of UsersUpdate e \<Rightarrow> Some ''Resource Not Found: userKey'' | _ \<Rightarrow> None)"

definition provRemoveFails :: provider where
  "provRemoveFails log c =
     (case c of LicenseRemove p k e \<Rightarrow> Some ''Quota exceeded'' | _ \<Rightarrow> None)"

definition provInsertFails :: provider where
  "provInsertFails log c =
     (case c of LicenseInsert p k e \<Rightarrow> Some ''Insufficient licenses'' | _ \<Rightarrow> None)"

text \<open>A provider that rejects the suspension of erin only.\<close>

definition provErinRejected :: provider where
  "provErinRejected log c =
     (case c of
        UsersUpdate e \<Rightarrow>
          if e = ''erin@example.com'' then Some ''Resource Not Found: userKey'' else None
      | _ \<Rightarrow> None)"

text \<open>
  A provider that rejects both license calls, the removal with the message \<open>m1\<close> and the
  assignment with the message \<open>m2\<close>.
\<close>

definition provLicensesFail :: "string \<Rightarrow> string \<Rightarrow> provider" where
  "provLicensesFail m1 m2 log c =
     (case c of
        UsersUpdate e \<Rightarrow> None
      | LicenseRemove p k e \<Rightarrow> Some m1
      | LicenseInsert p k e \<Rightarrow> Some m2)"

text \<open>Three groups, served in two pages; the audit runs in batches of two.\<close>

definition g1 :: group where
  "g1 = \<lparr>grp_name = ''Sales'', grp_email = ''sales@example.com'',
         grp_description = Some ''Sales team'', grp_directMembersCount = Some 12,
         grp_adminCreated = Some True\<rparr>"

definition g2 :: group where
  "g2 = \<lparr>grp_name = ''Ops'', grp_email = ''ops@example.com'',
         grp_description = None, grp_directMembersCount = None,
         grp_adminCreated = None\<rparr>"

definition g3 :: group where
  "g3 = \<lparr>grp_name = ''Dev'', grp_email = ''dev@example.com'',
         grp_description = Some [], grp_directMembersCount = Some 3,
         grp_adminCreated = Some False\<rparr>"

definition g4 :: group where
  "g4 = \<lparr>grp_name = ''New'', grp_email = ''new@example.com'',
         grp_description = None, grp_directMembersCount = Some 1,
         grp_adminCreated = Some True\<rparr>"

text \<open>
  Sales has an owner and a manager. For Ops the owner listing throws and the manager
  listing has a manager on its second page. Dev has neither.
\<close>

definition members1 :: "string \<Rightarrow> role \<Rightarrow> string paged" where
  "members1 e r =
     (if e = ''sales@example.com'' then LastPage (Some [''amy@example.com''])
      else if e = ''ops@example.com''
      then (case r of
              OWNER \<Rightarrow> Throws ''Service unavailable''
            | MANAGER \<Rightarrow> MorePage (Some []) (LastPage (Some [''bo@example.com''])))
      else LastPage None)"

definition env1 :: env where
  "env1 = \<lparr>groupsList = MorePage (Some [g1, g2]) (LastPage (Some [g3])),
           membersList = members1, elapsedMs = (\<lambda>i. 1000 * int i), reportFails = None\<rparr>"

text \<open>A later invocation, when the directory has a fourth group.\<close>

definition env2 :: env where
  "env2 = \<lparr>groupsList = LastPage (Some [g1, g2, g3, g4]),
           membersList = members1, elapsedMs = (\<lambda>i. 1000 * int i), reportFails = None\<rparr>"

definition cfgBatch :: gconfig where
  "cfgBatch = \<lparr>BATCH_SIZE = 2, MAX_EXECUTION_TIME = 300\<rparr>"

definition fresh :: store where
  "fresh = \<lparr>processedIndex = None, auditResults = None, groupsCache = None\<rparr>"

definition opsResult :: audit_result where
  "opsResult = \<lparr>groupName = ''Ops'', groupEmail = ''ops@example.com'', description = ''N/A'',
       directMembersCount = 0, adminCreated = False, hasOwner = False, hasManager = True,
       missingRoles = ''OWNER''\<rparr>"

definition devResult :: audit_result where
  "devResult = \<lparr>groupName = ''Dev'', groupEmail = ''dev@example.com'', description = ''N/A'',
       directMembersCount = 3, adminCreated = False, hasOwner = False, hasManager = False,
       missingRoles = ''OWNER, MANAGER''\<rparr>"

text \<open>
  Login activities: two of Alice (the earlier one with capitals in the email), one of
  Bob, one without an actor; served in two pages.
\<close>

definition act1 :: activity where
  "act1 = \<lparr>actorEmail = Some ''Alice@Example.com'', idTime = Denotes 1760000000000\<rparr>"

definition act2 :: activity where
  "act2 = \<lparr>actorEmail = Some ''bob@example.com'', idTime = Denotes 1740787200000\<rparr>"

definition act3 :: activity where
  "act3 = \<lparr>actorEmail = Some ''alice@example.com'', idTime = Denotes 1761000000000\<rparr>"

definition act4 :: activity where
  "act4 = \<lparr>actorEmail = None, idTime = Denotes 1761500000000\<rparr>"

definition reports1 :: "int \<Rightarrow> int \<Rightarrow> activity paged" where
  "reports1 startTime endTime = MorePage (Some [act1, act2]) (LastPage (Some [act3, act4]))"

text \<open>A delegated administrator and a plain user, both in a unit under legal hold.\<close>

definition henry :: user where
  "henry = \<lparr>primaryEmail = ''henry@example.com'', fullName = Some ''Henry'',
          orgUnitPath = Some ''/LH - legal hold/EU'', lastLoginTime = None,
          suspended = False, isAdmin = False, isDelegatedAdmin = True,
          licenseString = Some ''Enterprise Plus''\<rparr>"

definition ivy :: user where
  "ivy = \<lparr>primaryEmail = ''ivy@example.com'', fullName = Some ''Ivy'',
          orgUnitPath = Some ''/LH - legal hold/EU'', lastLoginTime = None,
          suspended = False, isAdmin = False, isDelegatedAdmin = False,
          licenseString = Some ''Enterprise Plus''\<rparr>"

section \<open>Properties of the classifier and the resolver\<close>

lemma truthy_ge_iff:
  "(truthy x \<and> num_ge (getTime x) (Some c)) = (\<exists>t. x = Some (Denotes t) \<and> c \<le> t)"
proof (cases x)
  case None
  then show ?thesis by simp
next
  case (Some v)
  then show ?thesis by (cases v) auto
qed

lemma lower_bob: "toLowerCase ''Bob@Example.com'' = ''bob@example.com''"
  by code_simp

lemma lower_carol: "toLowerCase ''carol@example.com'' = ''carol@example.com''"
  by code_simp

lemma lower_dave: "toLowerCase ''dave@example.com'' = ''dave@example.com''"
  by code_simp

text \<open>
  C1. A user is classified ACTIVE (\<^verbatim>\<open>checkIfUserInactive\<close> returns false, the filter
  callback of \<^verbatim>\<open>getInactiveUsers\<close> drops the user) if and only if the Reports login
  map has, under the lower-cased email, a timestamp at or after the cutoff, or the
  directory's last-login field is present with a timestamp at or after the cutoff. The
  boundary is inclusive. In every other case, also when both signals are absent, the user
  is INACTIVE.
\<close>

theorem classifier_active_iff:
  "((\<not> checkIfUserInactive u reportsLoginData cutoffDate) =
      ((\<exists>t. reportsLoginData (toLowerCase (primaryEmail u)) = Some (Denotes t) \<and> cutoffDate \<le> t)
       \<or> (\<exists>t. lastLoginTime u = Some (Denotes t) \<and> cutoffDate \<le> t)))
   \<and> ((inactiveFilter reportsLoginData cutoffDate u = None) =
      ((\<exists>t. reportsLoginData (toLowerCase (primaryEmail u)) = Some (Denotes t) \<and> cutoffDate \<le> t)
       \<or> (\<exists>t. lastLoginTime u = Some (Denotes t) \<and> cutoffDate \<le> t)))
   \<and> (reportsLoginData (toLowerCase (primaryEmail u)) = None \<and> lastLoginTime u = None
      \<longrightarrow> checkIfUserInactive u reportsLoginData cutoffDate
          \<and> inactiveFilter reportsLoginData cutoffDate u = Some u)"
proof -
  let ?r = "reportsLoginData (toLowerCase (primaryEmail u))"
  let ?R = "truthy ?r \<and> num_ge (getTime ?r) (Some cutoffDate)"
  let ?D = "truthy (lastLoginTime u) \<and> num_ge (getTime (lastLoginTime u)) (Some cutoffDate)"
  have a: "(\<not> checkIfUserInactive u reportsLoginData cutoffDate) = (?R \<or> ?D)"
    unfolding checkIfUserInactive_def Let_def by (cases ?R; cases ?D) simp_all
  have b: "(inactiveFilter reportsLoginData cutoffDate u = None) = (?R \<or> ?D)"
    unfolding inactiveFilter_def Let_def by (cases ?R; cases ?D) simp_all
  have c: "?r = None \<and> lastLoginTime u = None
     \<longrightarrow> checkIfUserInactive u reportsLoginData cutoffDate
         \<and> inactiveFilter reportsLoginData cutoffDate u = Some u"
    by (simp add: checkIfUserInactive_def inactiveFilter_def Let_def)
  from a b c show ?thesis
    unfolding truthy_ge_iff by blast
qed

text \<open>
  The theorem at concrete users: a login recorded by the Reports API exactly at the cutoff
  makes the user ACTIVE although the directory field is older, and a user that neither
  source knows is INACTIVE and kept as it is.
\<close>

theorem classifier_active_iff_witness:
  "\<not> checkIfUserInactive bob [''bob@example.com'' \<mapsto> Denotes 1740787200000] 1740787200000
   \<and> inactiveFilter [''bob@example.com'' \<mapsto> Denotes 1740787200000] 1740787200000 bob = None
   \<and> checkIfUserInactive carol Map.empty 1740787200000
   \<and> inactiveFilter Map.empty 1740787200000 carol = Some carol"
  using classifier_active_iff [where u = bob and cutoffDate = 1740787200000
          and reportsLoginData = "[''bob@example.com'' \<mapsto> Denotes 1740787200000]"]
        classifier_active_iff [where u = carol and cutoffDate = 1740787200000
          and reportsLoginData = Map.empty]
  by (simp add: bob_def carol_def lower_bob lower_carol)

text \<open>
  C2 does not hold of the code. The filter callback stores "the most recent login time
  from either source" by overwriting the directory field with the Reports entry whenever
  there is one, without comparing the two. For a user whose Reports entry
  (2025-03-01T00:00:00.100Z) is older than the directory field (2025-03-01T00:00:00.500Z),
  both before the cutoff (2025-03-01T00:00:00.700Z), the user is INACTIVE, the record
  and the report cell end with the Reports entry, and the effective last-login, the later
  of the two, is the directory field.
\<close>

theorem recorded_lastLogin_is_reports_entry:
  "inactiveFilter [''dave@example.com'' \<mapsto> Denotes 1740787200100] 1740787200700 dave
     = Some (dave\<lparr>lastLoginTime := Some (Denotes 1740787200100)\<rparr>)
   \<and> checkIfUserInactive dave [''dave@example.com'' \<mapsto> Denotes 1740787200100] 1740787200700
   \<and> map_option (\<lambda>u. lastLoginCell (lastLoginTime u))
        (inactiveFilter [''dave@example.com'' \<mapsto> Denotes 1740787200100] 1740787200700 dave)
     = Some (LoginAt (Denotes 1740787200100))
   \<and> spec_effectiveLastLogin (Some 1740787200100) (getTime (lastLoginTime dave))
     = Some 1740787200500"
  by (simp add: inactiveFilter_def checkIfUserInactive_def Let_def dave_def lower_dave)

text \<open>
  C3. The resolver clamps its query window. The start date of the query is the cutoff
  when the cutoff is not older than the retention horizon (now minus 180 days), and the
  horizon itself when the cutoff is older; it is never before the horizon. The query is
  made with that start date and with now as its end, each handed to the provider as
  \<open>formatDate\<close> renders it.
\<close>

theorem resolver_window_clamped:
  "(maxReportsHistory now \<le> cutoffDate \<longrightarrow> startDate now cutoffDate = cutoffDate)
   \<and> (cutoffDate < maxReportsHistory now \<longrightarrow> startDate now cutoffDate = maxReportsHistory now)
   \<and> maxReportsHistory now \<le> startDate now cutoffDate
   \<and> maxReportsHistory now = now - 15552000000
   \<and> getLoginActivityFromReports formatDate activities now cutoffDate
       = collectLogins Map.empty (activities (formatDate (startDate now cutoffDate)) (formatDate now))"
  by (simp add: startDate_def maxReportsHistory_def retentionMs_def
      getLoginActivityFromReports_def)

text \<open>
  At 2025-11-01T00:00:00Z (1761955200000): a cutoff 90 days back is inside the horizon
  and is the start date; a cutoff 365 days back is clamped to the horizon, 180 days back.
\<close>

theorem resolver_window_clamped_witness:
  "maxReportsHistory 1761955200000 \<le> 1754179200000
   \<and> startDate 1761955200000 1754179200000 = 1754179200000
   \<and> 1730419200000 < maxReportsHistory 1761955200000
   \<and> startDate 1761955200000 1730419200000 = 1746403200000"
proof -
  have a: "maxReportsHistory 1761955200000 \<le> 1754179200000"
    by (simp add: maxReportsHistory_def retentionMs_def)
  have b: "1730419200000 < maxReportsHistory 1761955200000"
    by (simp add: maxReportsHistory_def retentionMs_def)
  have c: "maxReportsHistory 1761955200000 = 1746403200000"
    by (simp add: maxReportsHistory_def retentionMs_def)
  from a b c
    resolver_window_clamped [where now = 1761955200000 and cutoffDate = 1754179200000
      and formatDate = "\<lambda>t. t" and activities = "\<lambda>s e. LastPage None"]
    resolver_window_clamped [where now = 1761955200000 and cutoffDate = 1730419200000
      and formatDate = "\<lambda>t. t" and activities = "\<lambda>s e. LastPage None"]
  show ?thesis by simp
qed

section \<open>Properties of the action executor\<close>

lemma applySafetyLimit_take:
  "applySafetyLimit cfg us = take (min (length us) (MAX_SUSPEND_COUNT cfg)) us"
  by (simp add: applySafetyLimit_def min_def)

lemma step3_assign_email:
  "email (fst (step3_assign cfg prov e r log)) = email r"
  by (simp add: step3_assign_def keepFirstError_def Let_def split: option.splits)

lemma step2_remove_email:
  "email (fst (step2_remove cfg prov e r log)) = email r"
  by (simp add: step2_remove_def step3_assign_email keepFirstError_def Let_def
      split: option.splits)

lemma changeLicensesOf_email:
  "email (fst (changeLicensesOf cfg prov log u)) = primaryEmail u"
  by (simp add: changeLicensesOf_def step2_remove_email dryRun_def pendingResult_def Let_def
      split: option.splits)

lemma step3_assign_log:
  "\<exists>new. snd (step3_assign cfg prov e r log) = log @ new \<and> target ` set new \<subseteq> {e}"
  by (simp add: step3_assign_def Let_def split: option.splits)

lemma step2_remove_log:
  "\<exists>new. snd (step2_remove cfg prov e r log) = log @ new \<and> target ` set new \<subseteq> {e}"
proof -
  let ?c = "LicenseRemove (PRODUCT_ID cfg) (TARGET_SKU_ID cfg) e"
  obtain r' where s: "step2_remove cfg prov e r log = step3_assign cfg prov e r' (log @ [?c])"
    by (cases "prov log ?c") (simp_all add: step2_remove_def Let_def)
  from step3_assign_log [of cfg prov e r' "log @ [?c]"]
  obtain new where "snd (step3_assign cfg prov e r' (log @ [?c])) = (log @ [?c]) @ new"
    and "target ` set new \<subseteq> {e}" by blast
  with s have "snd (step2_remove cfg prov e r log) = log @ (?c # new)"
    and "target ` set (?c # new) \<subseteq> {e}" by simp_all
  then show ?thesis by blast
qed

lemma changeLicensesOf_log:
  "\<exists>new. snd (changeLicensesOf cfg prov log u) = log @ new
     \<and> target ` set new \<subseteq> {primaryEmail u}"
proof (cases "DRY_RUN cfg")
  case True
  then show ?thesis by (simp add: changeLicensesOf_def Let_def)
next
  case False
  let ?e = "primaryEmail u"
  let ?c = "UsersUpdate ?e"
  show ?thesis
  proof (cases "prov log ?c")
    case (Some msg)
    with False have "snd (changeLicensesOf cfg prov log u) = log @ [?c]"
      by (simp add: changeLicensesOf_def Let_def)
    moreover have "target ` set [?c] \<subseteq> {?e}" by simp
    ultimately show ?thesis by blast
  next
    case None
    with False obtain r' where
      s: "changeLicensesOf cfg prov log u = step2_remove cfg prov ?e r' (log @ [?c])"
      by (simp add: changeLicensesOf_def Let_def)
    from step2_remove_log [of cfg prov ?e r' "log @ [?c]"]
    obtain new where "snd (step2_remove cfg prov ?e r' (log @ [?c])) = (log @ [?c]) @ new"
      and "target ` set new \<subseteq> {?e}" by blast
    with s have "snd (changeLicensesOf cfg prov log u) = log @ (?c # new)"
      and "target ` set (?c # new) \<subseteq> {?e}" by simp_all
    then show ?thesis by blast
  qed
qed

lemma suspendAndChangeLicenses_emails:
  "map email (fst (suspendAndChangeLicenses cfg prov us log)) = map primaryEmail us"
proof (induction us arbitrary: log)
  case Nil
  show ?case by simp
next
  case (Cons u us)
  obtain r log1 where a: "changeLicensesOf cfg prov log u = (r, log1)" by force
  obtain rs log2 where b: "suspendAndChangeLicenses cfg prov us log1 = (rs, log2)" by force
  from a have "email r = primaryEmail u"
    using changeLicensesOf_email [of cfg prov log u] by simp
  moreover from b have "map email rs = map primaryEmail us"
    using Cons.IH [of log1] by simp
  ultimately show ?case using a b by simp
qed

lemma suspendAndChangeLicenses_log:
  "\<exists>new. snd (suspendAndChangeLicenses cfg prov us log) = log @ new
     \<and> target ` set new \<subseteq> primaryEmail ` set us"
proof (induction us arbitrary: log)
  case Nil
  show ?case by simp
next
  case (Cons u us)
  obtain r log1 where a: "changeLicensesOf cfg prov log u = (r, log1)" by force
  obtain rs log2 where b: "suspendAndChangeLicenses cfg prov us log1 = (rs, log2)" by force
  from a changeLicensesOf_log [of cfg prov log u]
  obtain n1 where n1: "log1 = log @ n1" "target ` set n1 \<subseteq> {primaryEmail u}" by auto
  from b Cons.IH [of log1]
  obtain n2 where n2: "log2 = log1 @ n2" "target ` set n2 \<subseteq> primaryEmail ` set us" by auto
  have "snd (suspendAndChangeLicenses cfg prov (u # us) log) = log @ (n1 @ n2)"
    using a b n1 n2 by simp
  moreover have "target ` set (n1 @ n2) \<subseteq> primaryEmail ` set (u # us)"
    using n1 n2 by auto
  ultimately show ?case by blast
qed

lemma suspendOne_email:
  "s_email (fst (suspendOne cfg prov log u)) = primaryEmail u"
  by (simp add: suspendOne_def Let_def split: option.splits)

lemma suspendOne_log:
  "\<exists>new. snd (suspendOne cfg prov log u) = log @ new
     \<and> target ` set new \<subseteq> {primaryEmail u}"
  by (simp add: suspendOne_def Let_def split: option.splits)

lemma suspendUsers_emails:
  "map s_email (fst (suspendUsers cfg prov us log)) = map primaryEmail us"
proof (induction us arbitrary: log)
  case Nil
  show ?case by simp
next
  case (Cons u us)
  obtain r log1 where a: "suspendOne cfg prov log u = (r, log1)" by force
  obtain rs log2 where b: "suspendUsers cfg prov us log1 = (rs, log2)" by force
  from a have "s_email r = primaryEmail u"
    using suspendOne_email [of cfg prov log u] by simp
  moreover from b have "map s_email rs = map primaryEmail us"
    using Cons.IH [of log1] by simp
  ultimately show ?case using a b by simp
qed

lemma suspendUsers_log:
  "\<exists>new. snd (suspendUsers cfg prov us log) = log @ new
     \<and> target ` set new \<subseteq> primaryEmail ` set us"
proof (induction us arbitrary: log)
  case Nil
  show ?case by simp
next
  case (Cons u us)
  obtain r log1 where a: "suspendOne cfg prov log u = (r, log1)" by force
  obtain rs log2 where b: "suspendUsers cfg prov us log1 = (rs, log2)" by force
  from a suspendOne_log [of cfg prov log u]
  obtain n1 where n1: "log1 = log @ n1" "target ` set n1 \<subseteq> {primaryEmail u}" by auto
  from b Cons.IH [of log1]
  obtain n2 where n2: "log2 = log1 @ n2" "target ` set n2 \<subseteq> primaryEmail ` set us" by auto
  have "snd (suspendUsers cfg prov (u # us) log) = log @ (n1 @ n2)"
    using a b n1 n2 by simp
  moreover have "target ` set (n1 @ n2) \<subseteq> primaryEmail ` set (u # us)"
    using n1 n2 by auto
  ultimately show ?case by blast
qed

lemma step3_assign_calls:
  "snd (step3_assign cfg prov e r log)
     = log @ (if ASSIGN_CLOUD_IDENTITY_FREE cfg
              then [LicenseInsert (PRODUCT_ID cfg) (CLOUD_IDENTITY_FREE_SKU_ID cfg) e] else [])"
  by (simp add: step3_assign_def Let_def split: option.splits)

lemma step2_remove_calls:
  "snd (step2_remove cfg prov e r log)
     = log @ LicenseRemove (PRODUCT_ID cfg) (TARGET_SKU_ID cfg) e
         # (if ASSIGN_CLOUD_IDENTITY_FREE cfg
            then [LicenseInsert (PRODUCT_ID cfg) (CLOUD_IDENTITY_FREE_SKU_ID cfg) e] else [])"
  by (simp add: step2_remove_def step3_assign_calls Let_def split: option.splits)

lemma changeLicensesOf_calls:
  assumes "\<not> DRY_RUN cfg"
  shows "snd (changeLicensesOf cfg prov log u) = log @ stepsOf cfg prov log u"
  using assms
  by (simp add: changeLicensesOf_def step2_remove_calls stepsOf_def Let_def split: option.splits)

lemma stepsOf_updates:
  "filter isUsersUpdate (stepsOf cfg prov log u) = [UsersUpdate (primaryEmail u)]"
  by (simp add: stepsOf_def)

lemma step3_assign_status:
  "suspensionStatus (fst (step3_assign cfg prov e r log)) = suspensionStatus r"
  by (simp add: step3_assign_def keepFirstError_def Let_def split: option.splits)

lemma step2_remove_status:
  "suspensionStatus (fst (step2_remove cfg prov e r log)) = suspensionStatus r"
  by (simp add: step2_remove_def step3_assign_status keepFirstError_def Let_def
      split: option.splits)

lemma changeLicensesOf_status:
  "suspensionStatus (fst (changeLicensesOf cfg prov log u))
     = (if DRY_RUN cfg then DryRunWouldSuspend
        else case prov log (UsersUpdate (primaryEmail u)) of
               None \<Rightarrow> SuccessfullySuspended
             | Some msg \<Rightarrow> Failed msg)"
  by (simp add: changeLicensesOf_def step2_remove_status dryRun_def Let_def
      split: option.splits)

lemma suspendOne_status:
  "s_status (fst (suspendOne cfg prov log u))
     = (if DRY_RUN cfg then DryRunWouldSuspend
        else case prov log (UsersUpdate (primaryEmail u)) of
               None \<Rightarrow> SuccessfullySuspended
             | Some msg \<Rightarrow> FailedToSuspend)"
  by (simp add: suspendOne_def Let_def split: option.splits)

lemma suspendOne_calls:
  assumes "\<not> DRY_RUN cfg"
  shows "snd (suspendOne cfg prov log u) = log @ [UsersUpdate (primaryEmail u)]"
  using assms by (simp add: suspendOne_def Let_def split: option.splits)

lemma suspendUsers_calls:
  assumes "\<not> DRY_RUN cfg"
  shows "snd (suspendUsers cfg prov us log) = log @ map (\<lambda>u. UsersUpdate (primaryEmail u)) us"
proof (induction us arbitrary: log)
  case Nil
  show ?case by simp
next
  case (Cons u us)
  obtain r log1 where a: "suspendOne cfg prov log u = (r, log1)" by force
  obtain rs log2 where b: "suspendUsers cfg prov us log1 = (rs, log2)" by force
  from a suspendOne_calls [OF assms, of prov log u]
  have n1: "log1 = log @ [UsersUpdate (primaryEmail u)]" by simp
  from b Cons.IH [of log1]
  have n2: "log2 = log1 @ map (\<lambda>u. UsersUpdate (primaryEmail u)) us" by simp
  show ?case using a b n1 n2 by simp
qed

lemma suspendAndChangeLicenses_updates:
  assumes "\<not> DRY_RUN cfg"
  shows "\<exists>new. snd (suspendAndChangeLicenses cfg prov us log) = log @ new
     \<and> filter isUsersUpdate new = map (\<lambda>u. UsersUpdate (primaryEmail u)) us"
proof (induction us arbitrary: log)
  case Nil
  show ?case by simp
next
  case (Cons u us)
  obtain r log1 where a: "changeLicensesOf cfg prov log u = (r, log1)" by force
  obtain rs log2 where b: "suspendAndChangeLicenses cfg prov us log1 = (rs, log2)" by force
  from a changeLicensesOf_calls [OF assms, of prov log u]
  have n1: "log1 = log @ stepsOf cfg prov log u" by simp
  from b Cons.IH [of log1]
  obtain n2 where n2: "log2 = log1 @ n2"
    "filter isUsersUpdate n2 = map (\<lambda>u. UsersUpdate (primaryEmail u)) us" by auto
  have "snd (suspendAndChangeLicenses cfg prov (u # us) log) = log @ (stepsOf cfg prov log u @ n2)"
    using a b n1 n2 by simp
  moreover have "filter isUsersUpdate (stepsOf cfg prov log u @ n2)
      = map (\<lambda>u. UsersUpdate (primaryEmail u)) (u # us)"
    using n2 by (simp add: stepsOf_updates)
  ultimately show ?case by blast
qed

lemma suspendAndChangeLicenses_statuses:
  "list_all (\<lambda>r. suspensionStatus r \<noteq> Pending) (fst (suspendAndChangeLicenses cfg prov us log))"
proof (induction us arbitrary: log)
  case Nil
  show ?case by simp
next
  case (Cons u us)
  obtain r log1 where a: "changeLicensesOf cfg prov log u = (r, log1)" by force
  obtain rs log2 where b: "suspendAndChangeLicenses cfg prov us log1 = (rs, log2)" by force
  from a changeLicensesOf_status [of cfg prov log u]
  have "suspensionStatus r \<noteq> Pending" by (simp split: option.splits if_splits)
  moreover from b Cons.IH [of log1]
  have "list_all (\<lambda>r. suspensionStatus r \<noteq> Pending) rs" by simp
  ultimately show ?case using a b by simp
qed

lemma suspendUsers_statuses:
  "list_all (\<lambda>r. s_status r \<noteq> Pending) (fst (suspendUsers cfg prov us log))"
proof (induction us arbitrary: log)
  case Nil
  show ?case by simp
next
  case (Cons u us)
  obtain r log1 where a: "suspendOne cfg prov log u = (r, log1)" by force
  obtain rs log2 where b: "suspendUsers cfg prov us log1 = (rs, log2)" by force
  from a suspendOne_status [of cfg prov log u]
  have "s_status r \<noteq> Pending" by (simp split: option.splits if_splits)
  moreover from b Cons.IH [of log1]
  have "list_all (\<lambda>r. s_status r \<noteq> Pending) rs" by simp
  ultimately show ?case using a b by simp
qed

lemma changeLicensesOf_error:
  assumes "\<not> DRY_RUN cfg"
  shows "error (fst (changeLicensesOf cfg prov log u))
     = (if thrown prov log (stepsOf cfg prov log u) = [] then None
        else Some (firstNonEmpty (thrown prov log (stepsOf cfg prov log u))))"
  using assms
  by (simp add: changeLicensesOf_def step2_remove_def step3_assign_def keepFirstError_def
      pendingResult_def stepsOf_def firstNonEmpty_def Let_def split: option.splits)

lemma suspendAndChangeLicenses_append:
  "suspendAndChangeLicenses cfg prov (us1 @ us2) log
     = (fst (suspendAndChangeLicenses cfg prov us1 log)
          @ fst (suspendAndChangeLicenses cfg prov us2 (snd (suspendAndChangeLicenses cfg prov us1 log))),
        snd (suspendAndChangeLicenses cfg prov us2 (snd (suspendAndChangeLicenses cfg prov us1 log))))"
  by (induction us1 arbitrary: log) (simp_all add: split_beta Let_def)

lemma suspendAndChangeLicenses_nth:
  assumes "i < length us"
  shows "fst (suspendAndChangeLicenses cfg prov us log) ! i
     = fst (changeLicensesOf cfg prov (snd (suspendAndChangeLicenses cfg prov (take i us) log)) (us ! i))"
proof -
  have us: "us = take i us @ (us ! i # drop (Suc i) us)"
    using assms by (simp add: id_take_nth_drop)
  have l: "length (fst (suspendAndChangeLicenses cfg prov (take i us) log)) = i"
    using arg_cong [OF suspendAndChangeLicenses_emails [of cfg prov "take i us" log], of length] assms
    by simp
  have "fst (suspendAndChangeLicenses cfg prov (take i us @ (us ! i # drop (Suc i) us)) log) ! i
     = fst (changeLicensesOf cfg prov (snd (suspendAndChangeLicenses cfg prov (take i us) log)) (us ! i))"
    unfolding suspendAndChangeLicenses_append fst_conv
    by (simp add: nth_append l split_beta Let_def)
  with us show ?thesis by simp
qed

lemma suspendAndChangeLicenses_step:
  assumes "i < length us"
  shows "snd (suspendAndChangeLicenses cfg prov (take (Suc i) us) log)
     = snd (changeLicensesOf cfg prov (snd (suspendAndChangeLicenses cfg prov (take i us) log)) (us ! i))"
proof -
  have t: "take (Suc i) us = take i us @ [us ! i]"
    using assms by (rule take_Suc_conv_app_nth)
  have "snd (suspendAndChangeLicenses cfg prov (take i us @ [us ! i]) log)
     = snd (changeLicensesOf cfg prov (snd (suspendAndChangeLicenses cfg prov (take i us) log)) (us ! i))"
    unfolding suspendAndChangeLicenses_append snd_conv by (simp add: split_beta Let_def)
  then show ?thesis
    unfolding t .
qed

lemma firstNonEmpty_hd:
  assumes "msgs \<noteq> []" and "[] \<notin> set msgs"
  shows "firstNonEmpty msgs = hd msgs"
proof -
  from assms(2) have "filter (\<lambda>msg. msg \<noteq> []) msgs = msgs"
    by (induction msgs) auto
  with assms(1) show ?thesis
    by (cases msgs) (simp_all add: firstNonEmpty_def)
qed

lemma distinct_take_drop_disjoint:
  assumes "distinct (map f xs)"
  shows "f ` set (take k xs) \<inter> f ` set (drop k xs) = {}"
proof -
  have "map f xs = map f (take k xs) @ map f (drop k xs)"
    by (simp flip: map_append)
  with assms have "set (map f (take k xs)) \<inter> set (map f (drop k xs)) = {}"
    by (metis distinct_append)
  then show ?thesis by simp
qed

text \<open>
  C4. With a candidate list of length L and the cap C, both executors process exactly the
  first min(L, C) candidates, in order: the results table has one row for each of them and
  no other row, and every provider call made is for one of them. When the candidates'
  emails are distinct, no candidate beyond the cap appears in the results table or is the
  target of a call. The kept candidates are processed: no row keeps the status
  \<^verbatim>\<open>'Pending'\<close>, and in live mode the suspension calls made are exactly those of the
  first min(L, C) candidates, one each, in the order of the list (for \<^verbatim>\<open>suspendUsers\<close>
  they are all the calls made).
\<close>

theorem safety_cap_first_min:
  "length (fst (suspendAndChangeLicenses cfg prov (applySafetyLimit cfg us) log))
     = min (length us) (MAX_SUSPEND_COUNT cfg)
   \<and> map email (fst (suspendAndChangeLicenses cfg prov (applySafetyLimit cfg us) log))
     = map primaryEmail (take (min (length us) (MAX_SUSPEND_COUNT cfg)) us)
   \<and> (\<exists>new. snd (suspendAndChangeLicenses cfg prov (applySafetyLimit cfg us) log) = log @ new
        \<and> target ` set new
          \<subseteq> primaryEmail ` set (take (min (length us) (MAX_SUSPEND_COUNT cfg)) us))
   \<and> length (fst (suspendUsers cfg prov (applySafetyLimit cfg us) log))
     = min (length us) (MAX_SUSPEND_COUNT cfg)
   \<and> map s_email (fst (suspendUsers cfg prov (applySafetyLimit cfg us) log))
     = map primaryEmail (take (min (length us) (MAX_SUSPEND_COUNT cfg)) us)
   \<and> (\<exists>new. snd (suspendUsers cfg prov (applySafetyLimit cfg us) log) = log @ new
        \<and> target ` set new
          \<subseteq> primaryEmail ` set (take (min (length us) (MAX_SUSPEND_COUNT cfg)) us))
   \<and> (distinct (map primaryEmail us) \<longrightarrow>
        (\<forall>u \<in> set (drop (min (length us) (MAX_SUSPEND_COUNT cfg)) us).
           primaryEmail u
             \<notin> email ` set (fst (suspendAndChangeLicenses cfg prov (applySafetyLimit cfg us) log))
           \<and> primaryEmail u
             \<notin> s_email ` set (fst (suspendUsers cfg prov (applySafetyLimit cfg us) log))
           \<and> primaryEmail u
             \<notin> target ` (set (snd (suspendAndChangeLicenses cfg prov (applySafetyLimit cfg us) []))
                 \<union> set (snd (suspendUsers cfg prov (applySafetyLimit cfg us) [])))))
   \<and> list_all (\<lambda>r. suspensionStatus r \<noteq> Pending)
        (fst (suspendAndChangeLicenses cfg prov (applySafetyLimit cfg us) log))
   \<and> list_all (\<lambda>r. s_status r \<noteq> Pending)
        (fst (suspendUsers cfg prov (applySafetyLimit cfg us) log))
   \<and> (\<not> DRY_RUN cfg \<longrightarrow>
        (\<exists>new. snd (suspendAndChangeLicenses cfg prov (applySafetyLimit cfg us) log) = log @ new
           \<and> filter isUsersUpdate new
             = map (\<lambda>u. UsersUpdate (primaryEmail u))
                 (take (min (length us) (MAX_SUSPEND_COUNT cfg)) us)))
   \<and> (\<not> DRY_RUN cfg \<longrightarrow>
        snd (suspendUsers cfg prov (applySafetyLimit cfg us) log)
          = log @ map (\<lambda>u. UsersUpdate (primaryEmail u))
                    (take (min (length us) (MAX_SUSPEND_COUNT cfg)) us))"
proof -
  let ?k = "min (length us) (MAX_SUSPEND_COUNT cfg)"
  let ?kept = "take ?k us"
  have lim: "applySafetyLimit cfg us = ?kept" by (rule applySafetyLimit_take)
  have e1: "map email (fst (suspendAndChangeLicenses cfg prov ?kept log)) = map primaryEmail ?kept"
    for log by (rule suspendAndChangeLicenses_emails)
  have e2: "map s_email (fst (suspendUsers cfg prov ?kept log)) = map primaryEmail ?kept"
    for log by (rule suspendUsers_emails)
  have l1: "length (fst (suspendAndChangeLicenses cfg prov ?kept log)) = ?k"
    using arg_cong [OF e1 [of log], of length] by simp
  have l2: "length (fst (suspendUsers cfg prov ?kept log)) = ?k"
    using arg_cong [OF e2 [of log], of length] by simp
  have s1: "email ` set (fst (suspendAndChangeLicenses cfg prov ?kept log)) = primaryEmail ` set ?kept"
    using arg_cong [OF e1 [of log], of set] by simp
  have s2: "s_email ` set (fst (suspendUsers cfg prov ?kept log)) = primaryEmail ` set ?kept"
    using arg_cong [OF e2 [of log], of set] by simp
  have g1: "\<exists>new. snd (suspendAndChangeLicenses cfg prov ?kept log) = log @ new
      \<and> target ` set new \<subseteq> primaryEmail ` set ?kept"
    by (rule suspendAndChangeLicenses_log)
  have g2: "\<exists>new. snd (suspendUsers cfg prov ?kept log) = log @ new
      \<and> target ` set new \<subseteq> primaryEmail ` set ?kept"
    by (rule suspendUsers_log)
  have c1: "target ` set (snd (suspendAndChangeLicenses cfg prov ?kept [])) \<subseteq> primaryEmail ` set ?kept"
    using suspendAndChangeLicenses_log [of cfg prov ?kept "[]"] by auto
  have c2: "target ` set (snd (suspendUsers cfg prov ?kept [])) \<subseteq> primaryEmail ` set ?kept"
    using suspendUsers_log [of cfg prov ?kept "[]"] by auto
  have excess: "primaryEmail u \<notin> primaryEmail ` set ?kept"
    if "distinct (map primaryEmail us)" and "u \<in> set (drop ?k us)" for u
    using distinct_take_drop_disjoint [OF that(1), of ?k] that(2) by blast
  have g3: "distinct (map primaryEmail us) \<longrightarrow>
        (\<forall>u \<in> set (drop ?k us).
           primaryEmail u \<notin> email ` set (fst (suspendAndChangeLicenses cfg prov ?kept log))
           \<and> primaryEmail u \<notin> s_email ` set (fst (suspendUsers cfg prov ?kept log))
           \<and> primaryEmail u
             \<notin> target ` (set (snd (suspendAndChangeLicenses cfg prov ?kept []))
                 \<union> set (snd (suspendUsers cfg prov ?kept []))))"
  proof (intro impI ballI conjI)
    fix u
    assume d: "distinct (map primaryEmail us)" and u: "u \<in> set (drop ?k us)"
    note x = excess [OF d u]
    from x show "primaryEmail u \<notin> email ` set (fst (suspendAndChangeLicenses cfg prov ?kept log))"
      unfolding s1 .
    from x show "primaryEmail u \<notin> s_email ` set (fst (suspendUsers cfg prov ?kept log))"
      unfolding s2 .
    from x c1 c2 show "primaryEmail u
        \<notin> target ` (set (snd (suspendAndChangeLicenses cfg prov ?kept []))
            \<union> set (snd (suspendUsers cfg prov ?kept [])))"
      unfolding image_Un by blast
  qed
  have p1: "list_all (\<lambda>r. suspensionStatus r \<noteq> Pending)
      (fst (suspendAndChangeLicenses cfg prov ?kept log))"
    by (rule suspendAndChangeLicenses_statuses)
  have p2: "list_all (\<lambda>r. s_status r \<noteq> Pending) (fst (suspendUsers cfg prov ?kept log))"
    by (rule suspendUsers_statuses)
  have u1: "\<not> DRY_RUN cfg \<longrightarrow>
      (\<exists>new. snd (suspendAndChangeLicenses cfg prov ?kept log) = log @ new
         \<and> filter isUsersUpdate new = map (\<lambda>u. UsersUpdate (primaryEmail u)) ?kept)"
  proof
    assume live: "\<not> DRY_RUN cfg"
    show "\<exists>new. snd (suspendAndChangeLicenses cfg prov ?kept log) = log @ new
         \<and> filter isUsersUpdate new = map (\<lambda>u. UsersUpdate (primaryEmail u)) ?kept"
      by (rule suspendAndChangeLicenses_updates [OF live])
  qed
  have u2: "\<not> DRY_RUN cfg \<longrightarrow>
      snd (suspendUsers cfg prov ?kept log) = log @ map (\<lambda>u. UsersUpdate (primaryEmail u)) ?kept"
  proof
    assume live: "\<not> DRY_RUN cfg"
    show "snd (suspendUsers cfg prov ?kept log)
        = log @ map (\<lambda>u. UsersUpdate (primaryEmail u)) ?kept"
      by (rule suspendUsers_calls [OF live])
  qed
  show ?thesis
    unfolding lim by (intro conjI l1 e1 g1 l2 e2 g2 g3 p1 p2 u1 u2)
qed

text \<open>
  Three candidates under a cap of two, in live mode: the first two are processed, each
  with its suspension call, and the third is not.
\<close>

theorem safety_cap_first_min_witness:
  "map email (fst (suspendAndChangeLicenses cfgLive provOk (applySafetyLimit cfgLive [erin, frank, gina]) []))
     = [''erin@example.com'', ''frank@example.com'']
   \<and> map s_email (fst (suspendUsers cfgLive provOk (applySafetyLimit cfgLive [erin, frank, gina]) []))
     = [''erin@example.com'', ''frank@example.com'']
   \<and> distinct (map primaryEmail [erin, frank, gina])
   \<and> ''gina@example.com''
       \<notin> email ` set (fst (suspendAndChangeLicenses cfgLive provOk (applySafetyLimit cfgLive [erin, frank, gina]) []))
   \<and> ''gina@example.com''
       \<notin> target ` (set (snd (suspendAndChangeLicenses cfgLive provOk (applySafetyLimit cfgLive [erin, frank, gina]) []))
            \<union> set (snd (suspendUsers cfgLive provOk (applySafetyLimit cfgLive [erin, frank, gina]) [])))
   \<and> \<not> DRY_RUN cfgLive
   \<and> filter isUsersUpdate
       (snd (suspendAndChangeLicenses cfgLive provOk (applySafetyLimit cfgLive [erin, frank, gina]) []))
     = [UsersUpdate ''erin@example.com'', UsersUpdate ''frank@example.com'']
   \<and> snd (suspendUsers cfgLive provOk (applySafetyLimit cfgLive [erin, frank, gina]) [])
     = [UsersUpdate ''erin@example.com'', UsersUpdate ''frank@example.com'']
   \<and> map suspensionStatus
       (fst (suspendAndChangeLicenses cfgLive provOk (applySafetyLimit cfgLive [erin, frank, gina]) []))
     = [SuccessfullySuspended, SuccessfullySuspended]
   \<and> map s_status (fst (suspendUsers cfgLive provOk (applySafetyLimit cfgLive [erin, frank, gina]) []))
     = [SuccessfullySuspended, SuccessfullySuspended]"
proof -
  let ?lic = "suspendAndChangeLicenses cfgLive provOk (applySafetyLimit cfgLive [erin, frank, gina]) []"
  let ?sus = "suspendUsers cfgLive provOk (applySafetyLimit cfgLive [erin, frank, gina]) []"
  have d: "distinct (map primaryEmail [erin, frank, gina])"
    by (simp add: erin_def frank_def gina_def)
  have live: "\<not> DRY_RUN cfgLive" by (simp add: cfgLive_def)
  have k: "min (length [erin, frank, gina]) (MAX_SUSPEND_COUNT cfgLive) = 2"
    by (simp add: cfgLive_def)
  have dr: "drop 2 [erin, frank, gina] = [gina]" and tk: "take 2 [erin, frank, gina] = [erin, frank]"
    by simp_all
  have g: "primaryEmail gina = ''gina@example.com''" by (simp add: gina_def)
  have e: "map primaryEmail [erin, frank] = [''erin@example.com'', ''frank@example.com'']"
    by (simp add: erin_def frank_def)
  have c: "map (\<lambda>u. UsersUpdate (primaryEmail u)) [erin, frank]
      = [UsersUpdate ''erin@example.com'', UsersUpdate ''frank@example.com'']"
    by (simp add: erin_def frank_def)
  note t = safety_cap_first_min [where cfg = cfgLive and prov = provOk
      and us = "[erin, frank, gina]" and log = "[]", unfolded k dr tk e c]
  from t have w1: "map email (fst ?lic) = [''erin@example.com'', ''frank@example.com'']"
    by (rule conjunct1 [OF conjunct2])
  from t have w2: "map s_email (fst ?sus) = [''erin@example.com'', ''frank@example.com'']"
    by blast
  from t d have x: "\<forall>u \<in> set [gina].
      primaryEmail u \<notin> email ` set (fst ?lic)
      \<and> primaryEmail u \<notin> s_email ` set (fst ?sus)
      \<and> primaryEmail u \<notin> target ` (set (snd ?lic) \<union> set (snd ?sus))"
    by blast
  from x have w3: "''gina@example.com'' \<notin> email ` set (fst ?lic)"
    and w4: "''gina@example.com'' \<notin> target ` (set (snd ?lic) \<union> set (snd ?sus))"
    by (simp_all add: g)
  from t live have "\<exists>new. snd ?lic = [] @ new
      \<and> filter isUsersUpdate new
        = [UsersUpdate ''erin@example.com'', UsersUpdate ''frank@example.com'']"
    by blast
  then have w5: "filter isUsersUpdate (snd ?lic)
      = [UsersUpdate ''erin@example.com'', UsersUpdate ''frank@example.com'']"
    by auto
  from t live have "snd ?sus
      = [] @ [UsersUpdate ''erin@example.com'', UsersUpdate ''frank@example.com'']"
    by blast
  then have w6: "snd ?sus = [UsersUpdate ''erin@example.com'', UsersUpdate ''frank@example.com'']"
    by simp
  have w7: "map suspensionStatus (fst ?lic) = [SuccessfullySuspended, SuccessfullySuspended]"
    unfolding applySafetyLimit_take k tk
    by (simp add: changeLicensesOf_status split_beta Let_def live provOk_def)
  have w8: "map s_status (fst ?sus) = [SuccessfullySuspended, SuccessfullySuspended]"
    unfolding applySafetyLimit_take k tk
    by (simp add: suspendOne_status split_beta Let_def live provOk_def)
  show ?thesis
    by (intro conjI w1 w2 d w3 w4 live w5 w6 w7 w8)
qed

lemma dryRun_changeLicensesOf:
  assumes "DRY_RUN cfg"
  shows "changeLicensesOf cfg prov log u = (dryRun cfg (pendingResult u), log)"
  using assms by (simp add: changeLicensesOf_def Let_def)

lemma dryRun_statuses:
  "suspensionStatus (dryRun cfg (pendingResult u)) = DryRunWouldSuspend
   \<and> licenseRemovalStatus (dryRun cfg (pendingResult u))
       = DryRunWouldRemove (getSkuName (TARGET_SKU_ID cfg))
   \<and> licenseAssignmentStatus (dryRun cfg (pendingResult u))
       = (if ASSIGN_CLOUD_IDENTITY_FREE cfg
          then DryRunWouldAssign (getSkuName (CLOUD_IDENTITY_FREE_SKU_ID cfg))
          else SkippedDisabled)
   \<and> \<not> res_suspended (dryRun cfg (pendingResult u))
   \<and> \<not> licenseRemoved (dryRun cfg (pendingResult u))
   \<and> \<not> licenseAssigned (dryRun cfg (pendingResult u))
   \<and> error (dryRun cfg (pendingResult u)) = None"
  by (simp add: dryRun_def pendingResult_def Let_def)

lemma dryRun_suspendAndChangeLicenses:
  assumes "DRY_RUN cfg"
  shows "suspendAndChangeLicenses cfg prov us log
     = (map (\<lambda>u. dryRun cfg (pendingResult u)) us, log)"
  by (induction us) (simp_all add: dryRun_changeLicensesOf [OF assms])

lemma dryRun_suspendOne:
  assumes "DRY_RUN cfg"
  shows "snd (suspendOne cfg prov log u) = log
     \<and> s_status (fst (suspendOne cfg prov log u)) = DryRunWouldSuspend
     \<and> \<not> s_suspended (fst (suspendOne cfg prov log u))
     \<and> s_error (fst (suspendOne cfg prov log u)) = None"
  using assms by (simp add: suspendOne_def Let_def)

lemma dryRun_suspendUsers:
  assumes "DRY_RUN cfg"
  shows "snd (suspendUsers cfg prov us log) = log
     \<and> length (fst (suspendUsers cfg prov us log)) = length us
     \<and> list_all (\<lambda>r. s_status r = DryRunWouldSuspend \<and> \<not> s_suspended r \<and> s_error r = None)
         (fst (suspendUsers cfg prov us log))"
proof (induction us)
  case Nil
  show ?case by simp
next
  case (Cons u us)
  obtain r log1 where a: "suspendOne cfg prov log u = (r, log1)" by force
  with dryRun_suspendOne [OF assms, of prov log u]
  have r: "log1 = log" "s_status r = DryRunWouldSuspend" "\<not> s_suspended r" "s_error r = None"
    by simp_all
  obtain rs log2 where b: "suspendUsers cfg prov us log = (rs, log2)" by force
  with Cons.IH have rs: "log2 = log" "length rs = length us"
    "list_all (\<lambda>r. s_status r = DryRunWouldSuspend \<and> \<not> s_suspended r \<and> s_error r = None) rs"
    by simp_all
  show ?case using a b r rs by simp
qed

text \<open>
  C5. With the dry-run flag set, neither executor makes a mutating provider call: the log
  of calls is left as it was, whatever the provider would answer. Every candidate still
  gets a record, and each record carries the simulated statuses ("DRY RUN - Would
  suspend", "DRY RUN - Would remove ...", and for the assignment "DRY RUN - Would assign
  ..." or "Skipped (disabled in config)"), with no suspension, removal, assignment or
  error recorded.
\<close>

theorem dry_run_no_mutation:
  assumes "DRY_RUN cfg"
  shows "snd (suspendAndChangeLicenses cfg prov us log) = log
   \<and> snd (suspendUsers cfg prov us log) = log
   \<and> length (fst (suspendAndChangeLicenses cfg prov us log)) = length us
   \<and> length (fst (suspendUsers cfg prov us log)) = length us
   \<and> list_all (\<lambda>r. suspensionStatus r = DryRunWouldSuspend
          \<and> licenseRemovalStatus r = DryRunWouldRemove (getSkuName (TARGET_SKU_ID cfg))
          \<and> licenseAssignmentStatus r
              = (if ASSIGN_CLOUD_IDENTITY_FREE cfg
                 then DryRunWouldAssign (getSkuName (CLOUD_IDENTITY_FREE_SKU_ID cfg))
                 else SkippedDisabled)
          \<and> \<not> res_suspended r \<and> \<not> licenseRemoved r \<and> \<not> licenseAssigned r
          \<and> error r = None)
        (fst (suspendAndChangeLicenses cfg prov us log))
   \<and> list_all (\<lambda>r. s_status r = DryRunWouldSuspend \<and> \<not> s_suspended r \<and> s_error r = None)
        (fst (suspendUsers cfg prov us log))"
proof -
  note a = dryRun_suspendAndChangeLicenses [OF assms, of prov us log]
  note b = dryRun_suspendUsers [OF assms, of prov us log]
  have c: "list_all (\<lambda>r. suspensionStatus r = DryRunWouldSuspend
          \<and> licenseRemovalStatus r = DryRunWouldRemove (getSkuName (TARGET_SKU_ID cfg))
          \<and> licenseAssignmentStatus r
              = (if ASSIGN_CLOUD_IDENTITY_FREE cfg
                 then DryRunWouldAssign (getSkuName (CLOUD_IDENTITY_FREE_SKU_ID cfg))
                 else SkippedDisabled)
          \<and> \<not> res_suspended r \<and> \<not> licenseRemoved r \<and> \<not> licenseAssigned r
          \<and> error r = None)
        (map (\<lambda>u. dryRun cfg (pendingResult u)) us)"
    unfolding list_all_iff using dryRun_statuses [of cfg] by simp
  from b have b1: "snd (suspendUsers cfg prov us log) = log"
    and b2: "length (fst (suspendUsers cfg prov us log)) = length us"
    and b3: "list_all (\<lambda>r. s_status r = DryRunWouldSuspend \<and> \<not> s_suspended r \<and> s_error r = None)
        (fst (suspendUsers cfg prov us log))"
    by simp_all
  have a1: "snd (suspendAndChangeLicenses cfg prov us log) = log"
    and a2: "length (fst (suspendAndChangeLicenses cfg prov us log)) = length us"
    unfolding a by simp_all
  have a3: "list_all (\<lambda>r. suspensionStatus r = DryRunWouldSuspend
          \<and> licenseRemovalStatus r = DryRunWouldRemove (getSkuName (TARGET_SKU_ID cfg))
          \<and> licenseAssignmentStatus r
              = (if ASSIGN_CLOUD_IDENTITY_FREE cfg
                 then DryRunWouldAssign (getSkuName (CLOUD_IDENTITY_FREE_SKU_ID cfg))
                 else SkippedDisabled)
          \<and> \<not> res_suspended r \<and> \<not> licenseRemoved r \<and> \<not> licenseAssigned r
          \<and> error r = None)
        (fst (suspendAndChangeLicenses cfg prov us log))"
    unfolding a fst_conv by (rule c)
  show ?thesis
    by (intro conjI a1 b1 a2 b2 a3 b3)
qed

text \<open>
  In dry-run mode with a provider that would reject every suspension: no call reaches it,
  and both candidates are reported as simulated.
\<close>

theorem dry_run_no_mutation_witness:
  "DRY_RUN cfgDry
   \<and> snd (suspendAndChangeLicenses cfgDry provUpdateFails [erin, frank] []) = []
   \<and> snd (suspendUsers cfgDry provUpdateFails [erin, frank] []) = []
   \<and> map suspensionStatus (fst (suspendAndChangeLicenses cfgDry provUpdateFails [erin, frank] []))
       = [DryRunWouldSuspend, DryRunWouldSuspend]
   \<and> map s_status (fst (suspendUsers cfgDry provUpdateFails [erin, frank] []))
       = [DryRunWouldSuspend, DryRunWouldSuspend]"
proof -
  have d: "DRY_RUN cfgDry" by (simp add: cfgDry_def)
  note t = dry_run_no_mutation [OF d, of provUpdateFails "[erin, frank]" "[]"]
  have s1: "map suspensionStatus (fst (suspendAndChangeLicenses cfgDry provUpdateFails [erin, frank] []))
       = [DryRunWouldSuspend, DryRunWouldSuspend]"
    by (simp add: changeLicensesOf_def Let_def dryRun_def d)
  have s2: "map s_status (fst (suspendUsers cfgDry provUpdateFails [erin, frank] []))
       = [DryRunWouldSuspend, DryRunWouldSuspend]"
    by (simp add: suspendOne_def Let_def d)
  from t d s1 s2 show ?thesis by simp
qed

text \<open>
  C6 as stated fails: after a failed license removal the assignment step is not skipped.
  With a provider that rejects the removal, the executor suspends the user, fails to
  remove the license, and then still assigns the replacement license.
\<close>

theorem assignment_after_failed_removal:
  "snd (changeLicensesOf cfgLive provRemoveFails [] erin)
     = [UsersUpdate ''erin@example.com'',
        LicenseRemove ''Google-Apps'' ''1010020020'' ''erin@example.com'',
        LicenseInsert ''Google-Apps'' ''1010010001'' ''erin@example.com'']
   \<and> licenseRemovalStatus (fst (changeLicensesOf cfgLive provRemoveFails [] erin))
     = Failed ''Quota exceeded''
   \<and> licenseAssigned (fst (changeLicensesOf cfgLive provRemoveFails [] erin))
   \<and> licenseAssignmentStatus (fst (changeLicensesOf cfgLive provRemoveFails [] erin))
     = Assigned ''Cloud Identity Free''
   \<and> error (fst (changeLicensesOf cfgLive provRemoveFails [] erin)) = Some ''Quota exceeded''"
  by (simp add: changeLicensesOf_def step2_remove_def step3_assign_def keepFirstError_def
      pendingResult_def Let_def cfgLive_def provRemoveFails_def erin_def getSkuName_def
      SKU_CATALOG_def)

text \<open>
  C6, amended. In live mode, for every user:
  \<^item> if the suspension fails, no license call is made for that user; the record keeps the
    failure as its suspension status and the message as its error, the license statuses
    stay pending;
  \<^item> if the suspension succeeds and the license removal fails, the record keeps the failure
    as its removal status and (when the message is not empty) the message as its error,
    whatever the assignment does afterwards; the assignment is still attempted exactly
    when it is enabled;
  \<^item> if only the assignment fails, the record keeps that failure and its message;
  \<^item> whatever fails, every user of the list gets its record, in order;
  \<^item> the calls made for the user are the update and, exactly when the update returns, the
    removal and (when enabled) the assignment; the suspension status is the outcome of the
    update; an assignment that is attempted is recorded as failed or as made, whatever
    the removal did;
  \<^item> the error of the record is the first message, among those of the steps that failed,
    that is not empty (no error when no step failed); when no message is empty it is the
    message of the first step that failed;
  \<^item> the run goes on after a failure: the suspension calls of the run are those of all the
    users of the list, one each and in order, and the record and the calls of each user
    are those of the three steps for that user, from the log left by the users before,
    whether any of them failed or not.
\<close>

theorem multi_step_failure_handling:
  fixes cfg :: config and prov :: provider and u :: user
  defines "upd \<equiv> UsersUpdate (primaryEmail u)"
    and "rem \<equiv> LicenseRemove (PRODUCT_ID cfg) (TARGET_SKU_ID cfg) (primaryEmail u)"
    and "ins \<equiv> LicenseInsert (PRODUCT_ID cfg) (CLOUD_IDENTITY_FREE_SKU_ID cfg) (primaryEmail u)"
  assumes live: "\<not> DRY_RUN cfg"
  shows
    "(prov log upd = Some msg \<longrightarrow>
        changeLicensesOf cfg prov log u
          = ((pendingResult u)\<lparr>suspensionStatus := Failed msg, error := Some msg\<rparr>, log @ [upd]))
     \<and> (prov log upd = None \<and> prov (log @ [upd]) rem = Some msg \<longrightarrow>
          res_suspended (fst (changeLicensesOf cfg prov log u))
          \<and> \<not> licenseRemoved (fst (changeLicensesOf cfg prov log u))
          \<and> licenseRemovalStatus (fst (changeLicensesOf cfg prov log u)) = Failed msg
          \<and> (msg \<noteq> [] \<longrightarrow> error (fst (changeLicensesOf cfg prov log u)) = Some msg)
          \<and> snd (changeLicensesOf cfg prov log u)
              = log @ [upd, rem] @ (if ASSIGN_CLOUD_IDENTITY_FREE cfg then [ins] else []))
     \<and> (prov log upd = None \<and> prov (log @ [upd]) rem = None
          \<and> ASSIGN_CLOUD_IDENTITY_FREE cfg \<and> prov (log @ [upd, rem]) ins = Some msg \<longrightarrow>
          licenseRemoved (fst (changeLicensesOf cfg prov log u))
          \<and> \<not> licenseAssigned (fst (changeLicensesOf cfg prov log u))
          \<and> licenseAssignmentStatus (fst (changeLicensesOf cfg prov log u)) = Failed msg
          \<and> error (fst (changeLicensesOf cfg prov log u)) = Some msg
          \<and> snd (changeLicensesOf cfg prov log u) = log @ [upd, rem, ins])
     \<and> map email (fst (suspendAndChangeLicenses cfg prov us log)) = map primaryEmail us
     \<and> snd (changeLicensesOf cfg prov log u)
         = log @ upd # (if prov log upd = None
                        then rem # (if ASSIGN_CLOUD_IDENTITY_FREE cfg then [ins] else [])
                        else [])
     \<and> stepsOf cfg prov log u
         = upd # (if prov log upd = None
                  then rem # (if ASSIGN_CLOUD_IDENTITY_FREE cfg then [ins] else [])
                  else [])
     \<and> suspensionStatus (fst (changeLicensesOf cfg prov log u))
         = (case prov log upd of None \<Rightarrow> SuccessfullySuspended | Some m \<Rightarrow> Failed m)
     \<and> (prov log upd = None \<and> ASSIGN_CLOUD_IDENTITY_FREE cfg
          \<and> prov (log @ [upd, rem]) ins = Some msg \<longrightarrow>
          \<not> licenseAssigned (fst (changeLicensesOf cfg prov log u))
          \<and> licenseAssignmentStatus (fst (changeLicensesOf cfg prov log u)) = Failed msg)
     \<and> (prov log upd = None \<and> ASSIGN_CLOUD_IDENTITY_FREE cfg
          \<and> prov (log @ [upd, rem]) ins = None \<longrightarrow>
          licenseAssigned (fst (changeLicensesOf cfg prov log u))
          \<and> licenseAssignmentStatus (fst (changeLicensesOf cfg prov log u))
              = Assigned (getSkuName (CLOUD_IDENTITY_FREE_SKU_ID cfg)))
     \<and> error (fst (changeLicensesOf cfg prov log u))
         = (if thrown prov log (stepsOf cfg prov log u) = [] then None
            else Some (firstNonEmpty (thrown prov log (stepsOf cfg prov log u))))
     \<and> (thrown prov log (stepsOf cfg prov log u) \<noteq> []
          \<and> [] \<notin> set (thrown prov log (stepsOf cfg prov log u)) \<longrightarrow>
          error (fst (changeLicensesOf cfg prov log u))
            = Some (hd (thrown prov log (stepsOf cfg prov log u))))
     \<and> (\<exists>new. snd (suspendAndChangeLicenses cfg prov us log) = log @ new
          \<and> filter isUsersUpdate new = map (\<lambda>v. UsersUpdate (primaryEmail v)) us)
     \<and> (\<forall>i < length us.
          fst (suspendAndChangeLicenses cfg prov us log) ! i
            = fst (changeLicensesOf cfg prov
                     (snd (suspendAndChangeLicenses cfg prov (take i us) log)) (us ! i))
          \<and> snd (suspendAndChangeLicenses cfg prov (take (Suc i) us) log)
            = snd (changeLicensesOf cfg prov
                     (snd (suspendAndChangeLicenses cfg prov (take i us) log)) (us ! i)))"
proof -
  have A: "prov log upd = Some msg \<longrightarrow>
      changeLicensesOf cfg prov log u
        = ((pendingResult u)\<lparr>suspensionStatus := Failed msg, error := Some msg\<rparr>, log @ [upd])"
    using live by (simp add: changeLicensesOf_def Let_def upd_def)
  have B: "prov log upd = None \<and> prov (log @ [upd]) rem = Some msg \<longrightarrow>
      res_suspended (fst (changeLicensesOf cfg prov log u))
      \<and> \<not> licenseRemoved (fst (changeLicensesOf cfg prov log u))
      \<and> licenseRemovalStatus (fst (changeLicensesOf cfg prov log u)) = Failed msg
      \<and> (msg \<noteq> [] \<longrightarrow> error (fst (changeLicensesOf cfg prov log u)) = Some msg)
      \<and> snd (changeLicensesOf cfg prov log u)
          = log @ [upd, rem] @ (if ASSIGN_CLOUD_IDENTITY_FREE cfg then [ins] else [])"
  proof (intro conjI impI)
    assume a: "prov log upd = None \<and> prov (log @ [upd]) rem = Some msg"
    let ?r1 = "(pendingResult u)\<lparr>res_suspended := True, suspensionStatus := SuccessfullySuspended\<rparr>"
    let ?r2 = "keepFirstError msg (?r1\<lparr>licenseRemovalStatus := Failed msg\<rparr>)"
    from a live have s: "changeLicensesOf cfg prov log u
        = step3_assign cfg prov (primaryEmail u) ?r2 (log @ [upd, rem])"
      by (simp add: changeLicensesOf_def step2_remove_def Let_def upd_def rem_def)
    show "res_suspended (fst (changeLicensesOf cfg prov log u))"
      unfolding s
      by (simp add: step3_assign_def keepFirstError_def pendingResult_def Let_def
          split: option.splits)
    show "\<not> licenseRemoved (fst (changeLicensesOf cfg prov log u))"
      unfolding s
      by (simp add: step3_assign_def keepFirstError_def pendingResult_def Let_def
          split: option.splits)
    show "licenseRemovalStatus (fst (changeLicensesOf cfg prov log u)) = Failed msg"
      unfolding s
      by (simp add: step3_assign_def keepFirstError_def pendingResult_def Let_def
          split: option.splits)
    show "error (fst (changeLicensesOf cfg prov log u)) = Some msg" if "msg \<noteq> []"
      unfolding s using that
      by (simp add: step3_assign_def keepFirstError_def pendingResult_def Let_def
          split: option.splits)
    show "snd (changeLicensesOf cfg prov log u)
        = log @ [upd, rem] @ (if ASSIGN_CLOUD_IDENTITY_FREE cfg then [ins] else [])"
      unfolding s
      by (simp add: step3_assign_def Let_def ins_def split: option.splits)
  qed
  have C: "prov log upd = None \<and> prov (log @ [upd]) rem = None
      \<and> ASSIGN_CLOUD_IDENTITY_FREE cfg \<and> prov (log @ [upd, rem]) ins = Some msg \<longrightarrow>
      licenseRemoved (fst (changeLicensesOf cfg prov log u))
      \<and> \<not> licenseAssigned (fst (changeLicensesOf cfg prov log u))
      \<and> licenseAssignmentStatus (fst (changeLicensesOf cfg prov log u)) = Failed msg
      \<and> error (fst (changeLicensesOf cfg prov log u)) = Some msg
      \<and> snd (changeLicensesOf cfg prov log u) = log @ [upd, rem, ins]"
  proof (intro conjI impI)
    assume a: "prov log upd = None \<and> prov (log @ [upd]) rem = None
        \<and> ASSIGN_CLOUD_IDENTITY_FREE cfg \<and> prov (log @ [upd, rem]) ins = Some msg"
    with live have s: "changeLicensesOf cfg prov log u
        = ((keepFirstError msg
              ((pendingResult u)\<lparr>res_suspended := True, suspensionStatus := SuccessfullySuspended,
                 licenseRemoved := True,
                 licenseRemovalStatus := Removed (getSkuName (TARGET_SKU_ID cfg)),
                 licenseAssignmentStatus := Failed msg\<rparr>))
            \<lparr>newLicenses := ''License assignment failed''\<rparr>,
           log @ [upd, rem, ins])"
      by (simp add: changeLicensesOf_def step2_remove_def step3_assign_def Let_def
          upd_def rem_def ins_def)
    show "licenseRemoved (fst (changeLicensesOf cfg prov log u))"
      unfolding s by (simp add: keepFirstError_def pendingResult_def)
    show "\<not> licenseAssigned (fst (changeLicensesOf cfg prov log u))"
      unfolding s by (simp add: keepFirstError_def pendingResult_def)
    show "licenseAssignmentStatus (fst (changeLicensesOf cfg prov log u)) = Failed msg"
      unfolding s by (simp add: keepFirstError_def pendingResult_def)
    show "error (fst (changeLicensesOf cfg prov log u)) = Some msg"
      unfolding s by (simp add: keepFirstError_def pendingResult_def)
    show "snd (changeLicensesOf cfg prov log u) = log @ [upd, rem, ins]"
      unfolding s by simp
  qed
  have D: "map email (fst (suspendAndChangeLicenses cfg prov us log)) = map primaryEmail us"
    by (rule suspendAndChangeLicenses_emails)
  have S: "stepsOf cfg prov log u
      = upd # (if prov log upd = None
               then rem # (if ASSIGN_CLOUD_IDENTITY_FREE cfg then [ins] else [])
               else [])"
    by (simp add: stepsOf_def upd_def rem_def ins_def)
  have E: "snd (changeLicensesOf cfg prov log u)
      = log @ upd # (if prov log upd = None
                     then rem # (if ASSIGN_CLOUD_IDENTITY_FREE cfg then [ins] else [])
                     else [])"
    unfolding changeLicensesOf_calls [OF live] S ..
  have F: "suspensionStatus (fst (changeLicensesOf cfg prov log u))
      = (case prov log upd of None \<Rightarrow> SuccessfullySuspended | Some m \<Rightarrow> Failed m)"
    using live by (simp add: changeLicensesOf_status upd_def)
  have G: "prov log upd = None \<and> ASSIGN_CLOUD_IDENTITY_FREE cfg
      \<and> prov (log @ [upd, rem]) ins = Some msg \<longrightarrow>
      \<not> licenseAssigned (fst (changeLicensesOf cfg prov log u))
      \<and> licenseAssignmentStatus (fst (changeLicensesOf cfg prov log u)) = Failed msg"
    using live
    by (simp add: changeLicensesOf_def step2_remove_def step3_assign_def keepFirstError_def
        pendingResult_def Let_def upd_def rem_def ins_def split: option.splits)
  have H: "prov log upd = None \<and> ASSIGN_CLOUD_IDENTITY_FREE cfg
      \<and> prov (log @ [upd, rem]) ins = None \<longrightarrow>
      licenseAssigned (fst (changeLicensesOf cfg prov log u))
      \<and> licenseAssignmentStatus (fst (changeLicensesOf cfg prov log u))
          = Assigned (getSkuName (CLOUD_IDENTITY_FREE_SKU_ID cfg))"
    using live
    by (simp add: changeLicensesOf_def step2_remove_def step3_assign_def keepFirstError_def
        pendingResult_def Let_def upd_def rem_def ins_def split: option.splits)
  have I: "error (fst (changeLicensesOf cfg prov log u))
      = (if thrown prov log (stepsOf cfg prov log u) = [] then None
         else Some (firstNonEmpty (thrown prov log (stepsOf cfg prov log u))))"
    by (rule changeLicensesOf_error [OF live])
  have J: "thrown prov log (stepsOf cfg prov log u) \<noteq> []
      \<and> [] \<notin> set (thrown prov log (stepsOf cfg prov log u)) \<longrightarrow>
      error (fst (changeLicensesOf cfg prov log u))
        = Some (hd (thrown prov log (stepsOf cfg prov log u)))"
    unfolding I by (simp add: firstNonEmpty_hd)
  have K: "\<exists>new. snd (suspendAndChangeLicenses cfg prov us log) = log @ new
      \<and> filter isUsersUpdate new = map (\<lambda>v. UsersUpdate (primaryEmail v)) us"
    by (rule suspendAndChangeLicenses_updates [OF live])
  have L: "\<forall>i < length us.
      fst (suspendAndChangeLicenses cfg prov us log) ! i
        = fst (changeLicensesOf cfg prov
                 (snd (suspendAndChangeLicenses cfg prov (take i us) log)) (us ! i))
      \<and> snd (suspendAndChangeLicenses cfg prov (take (Suc i) us) log)
        = snd (changeLicensesOf cfg prov
                 (snd (suspendAndChangeLicenses cfg prov (take i us) log)) (us ! i))"
    using suspendAndChangeLicenses_nth [of _ us cfg prov log]
      suspendAndChangeLicenses_step [of _ us cfg prov log]
    by blast
  show ?thesis
    by (intro conjI A B C D E S F G H I J K L)
qed

text \<open>
  The three failure cases at concrete providers: the suspension of erin is rejected (only
  the update call is made, the license statuses stay pending); the license removal is
  rejected (the error is kept, the assignment is still made); the assignment is rejected.
  When both license calls are rejected, the record keeps the message of the removal, the
  first of the two; when the removal is rejected with an empty message, it keeps the
  message of the assignment. The run goes on after a failure: when the suspension of erin
  is rejected, the next user, frank, is suspended and the licenses of frank are changed.
\<close>

theorem multi_step_failure_handling_witness:
  "\<not> DRY_RUN cfgLive
   \<and> provUpdateFails [] (UsersUpdate (primaryEmail erin)) = Some ''Resource Not Found: userKey''
   \<and> snd (changeLicensesOf cfgLive provUpdateFails [] erin) = [UsersUpdate ''erin@example.com'']
   \<and> error (fst (changeLicensesOf cfgLive provUpdateFails [] erin))
       = Some ''Resource Not Found: userKey''
   \<and> licenseRemovalStatus (fst (changeLicensesOf cfgLive provUpdateFails [] erin)) = Pending
   \<and> licenseAssignmentStatus (fst (changeLicensesOf cfgLive provUpdateFails [] erin)) = Pending
   \<and> licenseRemovalStatus (fst (changeLicensesOf cfgLive provRemoveFails [] erin))
       = Failed ''Quota exceeded''
   \<and> error (fst (changeLicensesOf cfgLive provRemoveFails [] erin)) = Some ''Quota exceeded''
   \<and> length (snd (changeLicensesOf cfgLive provRemoveFails [] erin)) = 3
   \<and> licenseAssignmentStatus (fst (changeLicensesOf cfgLive provInsertFails [] erin))
       = Failed ''Insufficient licenses''
   \<and> error (fst (changeLicensesOf cfgLive provInsertFails [] erin))
       = Some ''Insufficient licenses''
   \<and> map email (fst (suspendAndChangeLicenses cfgLive provUpdateFails [erin, frank] []))
       = [''erin@example.com'', ''frank@example.com'']
   \<and> licenseAssigned (fst (changeLicensesOf cfgLive provRemoveFails [] erin))
   \<and> thrown (provLicensesFail ''Quota exceeded'' ''Insufficient licenses'') []
         (stepsOf cfgLive (provLicensesFail ''Quota exceeded'' ''Insufficient licenses'') [] erin)
       = [''Quota exceeded'', ''Insufficient licenses'']
   \<and> error (fst (changeLicensesOf cfgLive
                    (provLicensesFail ''Quota exceeded'' ''Insufficient licenses'') [] erin))
       = Some ''Quota exceeded''
   \<and> licenseAssignmentStatus
         (fst (changeLicensesOf cfgLive
                 (provLicensesFail ''Quota exceeded'' ''Insufficient licenses'') [] erin))
       = Failed ''Insufficient licenses''
   \<and> error (fst (changeLicensesOf cfgLive (provLicensesFail [] ''Insufficient licenses'') [] erin))
       = Some ''Insufficient licenses''
   \<and> filter isUsersUpdate (snd (suspendAndChangeLicenses cfgLive provErinRejected [erin, frank] []))
       = [UsersUpdate ''erin@example.com'', UsersUpdate ''frank@example.com'']
   \<and> snd (suspendAndChangeLicenses cfgLive provErinRejected [erin] [])
       = [UsersUpdate ''erin@example.com'']
   \<and> fst (suspendAndChangeLicenses cfgLive provErinRejected [erin, frank] []) ! 1
       = fst (changeLicensesOf cfgLive provErinRejected [UsersUpdate ''erin@example.com''] frank)
   \<and> snd (suspendAndChangeLicenses cfgLive provErinRejected [erin, frank] [])
       = [UsersUpdate ''erin@example.com'', UsersUpdate ''frank@example.com'',
          LicenseRemove ''Google-Apps'' ''1010020020'' ''frank@example.com'',
          LicenseInsert ''Google-Apps'' ''1010010001'' ''frank@example.com'']
   \<and> map suspensionStatus (fst (suspendAndChangeLicenses cfgLive provErinRejected [erin, frank] []))
       = [Failed ''Resource Not Found: userKey'', SuccessfullySuspended]
   \<and> map licenseAssigned (fst (suspendAndChangeLicenses cfgLive provErinRejected [erin, frank] []))
       = [False, True]"
proof -
  have live: "\<not> DRY_RUN cfgLive" by (simp add: cfgLive_def)
  have en: "ASSIGN_CLOUD_IDENTITY_FREE cfgLive" by (simp add: cfgLive_def)
  have e: "primaryEmail erin = ''erin@example.com''" by (simp add: erin_def)
  have f: "primaryEmail frank = ''frank@example.com''" by (simp add: frank_def)
  have p1: "provUpdateFails [] (UsersUpdate (primaryEmail erin)) = Some ''Resource Not Found: userKey''"
    by (simp add: provUpdateFails_def)
  have p2: "provRemoveFails [] (UsersUpdate (primaryEmail erin)) = None
      \<and> provRemoveFails ([] @ [UsersUpdate (primaryEmail erin)])
           (LicenseRemove (PRODUCT_ID cfgLive) (TARGET_SKU_ID cfgLive) (primaryEmail erin))
          = Some ''Quota exceeded''"
    by (simp add: provRemoveFails_def)
  have p2': "provRemoveFails [] (UsersUpdate (primaryEmail erin)) = None
      \<and> ASSIGN_CLOUD_IDENTITY_FREE cfgLive
      \<and> provRemoveFails ([] @ [UsersUpdate (primaryEmail erin),
             LicenseRemove (PRODUCT_ID cfgLive) (TARGET_SKU_ID cfgLive) (primaryEmail erin)])
           (LicenseInsert (PRODUCT_ID cfgLive) (CLOUD_IDENTITY_FREE_SKU_ID cfgLive) (primaryEmail erin))
          = None"
    by (simp add: provRemoveFails_def en)
  have p3: "provInsertFails [] (UsersUpdate (primaryEmail erin)) = None
      \<and> provInsertFails ([] @ [UsersUpdate (primaryEmail erin)])
           (LicenseRemove (PRODUCT_ID cfgLive) (TARGET_SKU_ID cfgLive) (primaryEmail erin)) = None
      \<and> ASSIGN_CLOUD_IDENTITY_FREE cfgLive
      \<and> provInsertFails ([] @ [UsersUpdate (primaryEmail erin),
             LicenseRemove (PRODUCT_ID cfgLive) (TARGET_SKU_ID cfgLive) (primaryEmail erin)])
           (LicenseInsert (PRODUCT_ID cfgLive) (CLOUD_IDENTITY_FREE_SKU_ID cfgLive) (primaryEmail erin))
          = Some ''Insufficient licenses''"
    by (simp add: provInsertFails_def en)
  note t1 = multi_step_failure_handling [OF live, where prov = provUpdateFails and log = "[]"
      and u = erin and msg = "''Resource Not Found: userKey''" and us = "[erin, frank]"]
  note t2 = multi_step_failure_handling [OF live, where prov = provRemoveFails and log = "[]"
      and u = erin and msg = "''Quota exceeded''" and us = "[]"]
  note t3 = multi_step_failure_handling [OF live, where prov = provInsertFails and log = "[]"
      and u = erin and msg = "''Insufficient licenses''" and us = "[]"]
  note t4 = multi_step_failure_handling [OF live, where prov = provErinRejected and log = "[]"
      and u = erin and msg = "[]" and us = "[erin, frank]"]
  from t1 p1 have a: "changeLicensesOf cfgLive provUpdateFails [] erin
      = ((pendingResult erin)\<lparr>suspensionStatus := Failed ''Resource Not Found: userKey'',
            error := Some ''Resource Not Found: userKey''\<rparr>, [] @ [UsersUpdate (primaryEmail erin)])"
    by blast
  from t1 have a4: "map email (fst (suspendAndChangeLicenses cfgLive provUpdateFails [erin, frank] []))
      = map primaryEmail [erin, frank]"
    by blast
  from t2 p2 have b: "licenseRemovalStatus (fst (changeLicensesOf cfgLive provRemoveFails [] erin))
        = Failed ''Quota exceeded''"
    and b2: "error (fst (changeLicensesOf cfgLive provRemoveFails [] erin)) = Some ''Quota exceeded''"
    and b3: "snd (changeLicensesOf cfgLive provRemoveFails [] erin)
        = [] @ [UsersUpdate (primaryEmail erin),
             LicenseRemove (PRODUCT_ID cfgLive) (TARGET_SKU_ID cfgLive) (primaryEmail erin)]
           @ (if ASSIGN_CLOUD_IDENTITY_FREE cfgLive
              then [LicenseInsert (PRODUCT_ID cfgLive) (CLOUD_IDENTITY_FREE_SKU_ID cfgLive) (primaryEmail erin)]
              else [])"
    by simp_all
  from t2 p2' have b5: "licenseAssigned (fst (changeLicensesOf cfgLive provRemoveFails [] erin))"
    by blast
  let ?two = "provLicensesFail ''Quota exceeded'' ''Insufficient licenses''"
  note t5 = multi_step_failure_handling [OF live, where prov = ?two and log = "[]"
      and u = erin and msg = "''Insufficient licenses''" and us = "[]"]
  have b6: "thrown ?two [] (stepsOf cfgLive ?two [] erin)
      = [''Quota exceeded'', ''Insufficient licenses'']"
    by (simp add: stepsOf_def provLicensesFail_def en)
  from t5 have "thrown ?two [] (stepsOf cfgLive ?two [] erin) \<noteq> []
      \<and> [] \<notin> set (thrown ?two [] (stepsOf cfgLive ?two [] erin)) \<longrightarrow>
      error (fst (changeLicensesOf cfgLive ?two [] erin))
        = Some (hd (thrown ?two [] (stepsOf cfgLive ?two [] erin)))"
    by blast
  then have b7: "error (fst (changeLicensesOf cfgLive ?two [] erin)) = Some ''Quota exceeded''"
    unfolding b6 by simp
  have p5: "?two [] (UsersUpdate (primaryEmail erin)) = None
      \<and> ASSIGN_CLOUD_IDENTITY_FREE cfgLive
      \<and> ?two ([] @ [UsersUpdate (primaryEmail erin),
             LicenseRemove (PRODUCT_ID cfgLive) (TARGET_SKU_ID cfgLive) (primaryEmail erin)])
           (LicenseInsert (PRODUCT_ID cfgLive) (CLOUD_IDENTITY_FREE_SKU_ID cfgLive) (primaryEmail erin))
          = Some ''Insufficient licenses''"
    by (simp add: provLicensesFail_def en)
  from t5 p5 have b8: "licenseAssignmentStatus (fst (changeLicensesOf cfgLive ?two [] erin))
      = Failed ''Insufficient licenses''"
    by blast
  let ?mute = "provLicensesFail [] ''Insufficient licenses''"
  note t6 = multi_step_failure_handling [OF live, where prov = ?mute and log = "[]"
      and u = erin and msg = "[]" and us = "[]"]
  have b9: "thrown ?mute [] (stepsOf cfgLive ?mute [] erin) = [[], ''Insufficient licenses'']"
    by (simp add: stepsOf_def provLicensesFail_def en)
  from t6 have "error (fst (changeLicensesOf cfgLive ?mute [] erin))
      = (if thrown ?mute [] (stepsOf cfgLive ?mute [] erin) = [] then None
         else Some (firstNonEmpty (thrown ?mute [] (stepsOf cfgLive ?mute [] erin))))"
    by blast
  then have b10: "error (fst (changeLicensesOf cfgLive ?mute [] erin)) = Some ''Insufficient licenses''"
    unfolding b9 by (simp add: firstNonEmpty_def)
  from t3 p3 have c: "licenseAssignmentStatus (fst (changeLicensesOf cfgLive provInsertFails [] erin))
        = Failed ''Insufficient licenses''"
    and c2: "error (fst (changeLicensesOf cfgLive provInsertFails [] erin))
        = Some ''Insufficient licenses''"
    by blast+
  have a1: "snd (changeLicensesOf cfgLive provUpdateFails [] erin) = [UsersUpdate ''erin@example.com'']"
    and a2: "error (fst (changeLicensesOf cfgLive provUpdateFails [] erin))
       = Some ''Resource Not Found: userKey''"
    and a3: "licenseRemovalStatus (fst (changeLicensesOf cfgLive provUpdateFails [] erin)) = Pending"
    and a5: "licenseAssignmentStatus (fst (changeLicensesOf cfgLive provUpdateFails [] erin)) = Pending"
    unfolding a by (simp_all add: e pendingResult_def)
  have a6: "map email (fst (suspendAndChangeLicenses cfgLive provUpdateFails [erin, frank] []))
       = [''erin@example.com'', ''frank@example.com'']"
    unfolding a4 by (simp add: e f)
  have b4: "length (snd (changeLicensesOf cfgLive provRemoveFails [] erin)) = 3"
    unfolding b3 by (simp add: en)
  from t4 have "\<exists>new. snd (suspendAndChangeLicenses cfgLive provErinRejected [erin, frank] []) = [] @ new
      \<and> filter isUsersUpdate new = map (\<lambda>v. UsersUpdate (primaryEmail v)) [erin, frank]"
    by blast
  then have d1: "filter isUsersUpdate (snd (suspendAndChangeLicenses cfgLive provErinRejected [erin, frank] []))
      = [UsersUpdate ''erin@example.com'', UsersUpdate ''frank@example.com'']"
    by (auto simp add: e f)
  have d2: "snd (suspendAndChangeLicenses cfgLive provErinRejected [erin] [])
      = [UsersUpdate ''erin@example.com'']"
    by (simp add: changeLicensesOf_def Let_def live provErinRejected_def e)
  from t4 have steps: "\<forall>i < length [erin, frank].
      fst (suspendAndChangeLicenses cfgLive provErinRejected [erin, frank] []) ! i
        = fst (changeLicensesOf cfgLive provErinRejected
                 (snd (suspendAndChangeLicenses cfgLive provErinRejected (take i [erin, frank]) []))
                 ([erin, frank] ! i))
      \<and> snd (suspendAndChangeLicenses cfgLive provErinRejected (take (Suc i) [erin, frank]) [])
        = snd (changeLicensesOf cfgLive provErinRejected
                 (snd (suspendAndChangeLicenses cfgLive provErinRejected (take i [erin, frank]) []))
                 ([erin, frank] ! i))"
    by blast
  have lt: "1 < length [erin, frank]" by simp
  note second = steps [rule_format, OF lt]
  note n = second [THEN conjunct1] and m = second [THEN conjunct2]
  have tk: "take 1 [erin, frank] = [erin]" "take (Suc 1) [erin, frank] = [erin, frank]"
    "[erin, frank] ! 1 = frank"
    by simp_all
  have d3: "fst (suspendAndChangeLicenses cfgLive provErinRejected [erin, frank] []) ! 1
      = fst (changeLicensesOf cfgLive provErinRejected [UsersUpdate ''erin@example.com''] frank)"
    using n unfolding tk d2 .
  have fr: "changeLicensesOf cfgLive provErinRejected [UsersUpdate ''erin@example.com''] frank
      = ((pendingResult frank)\<lparr>res_suspended := True, suspensionStatus := SuccessfullySuspended,
            licenseRemoved := True, licenseRemovalStatus := Removed ''Enterprise Plus'',
            licenseAssigned := True, licenseAssignmentStatus := Assigned ''Cloud Identity Free'',
            newLicenses := ''Cloud Identity Free''\<rparr>,
         [UsersUpdate ''erin@example.com'', UsersUpdate ''frank@example.com'',
          LicenseRemove ''Google-Apps'' ''1010020020'' ''frank@example.com'',
          LicenseInsert ''Google-Apps'' ''1010010001'' ''frank@example.com''])"
    by (simp add: changeLicensesOf_def step2_remove_def step3_assign_def Let_def
        cfgLive_def provErinRejected_def f getSkuName_def SKU_CATALOG_def)
  have d4: "snd (suspendAndChangeLicenses cfgLive provErinRejected [erin, frank] [])
      = [UsersUpdate ''erin@example.com'', UsersUpdate ''frank@example.com'',
         LicenseRemove ''Google-Apps'' ''1010020020'' ''frank@example.com'',
         LicenseInsert ''Google-Apps'' ''1010010001'' ''frank@example.com'']"
    using m unfolding tk d2 fr snd_conv .
  have er: "changeLicensesOf cfgLive provErinRejected [] erin
      = ((pendingResult erin)\<lparr>suspensionStatus := Failed ''Resource Not Found: userKey'',
            error := Some ''Resource Not Found: userKey''\<rparr>, [UsersUpdate ''erin@example.com''])"
    by (simp add: changeLicensesOf_def Let_def live provErinRejected_def e)
  have run: "fst (suspendAndChangeLicenses cfgLive provErinRejected [erin, frank] [])
      = [(pendingResult erin)\<lparr>suspensionStatus := Failed ''Resource Not Found: userKey'',
            error := Some ''Resource Not Found: userKey''\<rparr>,
         (pendingResult frank)\<lparr>res_suspended := True, suspensionStatus := SuccessfullySuspended,
            licenseRemoved := True, licenseRemovalStatus := Removed ''Enterprise Plus'',
            licenseAssigned := True, licenseAssignmentStatus := Assigned ''Cloud Identity Free'',
            newLicenses := ''Cloud Identity Free''\<rparr>]"
    by (simp add: er fr)
  have d5: "map suspensionStatus (fst (suspendAndChangeLicenses cfgLive provErinRejected [erin, frank] []))
      = [Failed ''Resource Not Found: userKey'', SuccessfullySuspended]"
    unfolding run by simp
  have d6: "map licenseAssigned (fst (suspendAndChangeLicenses cfgLive provErinRejected [erin, frank] []))
      = [False, True]"
    unfolding run by (simp add: pendingResult_def)
  show ?thesis
    by (intro conjI live p1 a1 a2 a3 a5 b b2 b4 c c2 a6 b5 b6 b7 b8 b10 d1 d2 d3 d4 d5 d6)
qed

section \<open>Properties of the groups audit\<close>











lemma falsy_cases: "\<not> truthy x \<Longrightarrow> x = None \<or> x = Some Blank"
  by (cases x rule: truthy.cases) simp_all

lemma loadIndex_missing: "\<not> truthy (processedIndex s) \<Longrightarrow> loadIndex s = Some 0"
  by (auto simp: loadIndex_def dest: falsy_cases)

lemma loadResults_missing: "\<not> truthy (auditResults s) \<Longrightarrow> loadResults s = Inr []"
  by (auto simp: loadResults_def dest: falsy_cases)

lemma runBatch_overwrites:
  "runBatch cfg e gs (s1\<lparr>processedIndex := a, auditResults := b\<rparr>) i r = runBatch cfg e gs s1 i r"
  by (simp add: runBatch_def Let_def split: prod.splits option.splits)

lemma getAllGroups_overwrites:
  "getAllGroups e (s\<lparr>processedIndex := a, auditResults := b\<rparr>)
     = (fst (getAllGroups e s), (snd (getAllGroups e s))\<lparr>processedIndex := a, auditResults := b\<rparr>)"
  by (simp add: getAllGroups_def Let_def)

lemma getAllGroups_keeps:
  "processedIndex (snd (getAllGroups e s)) = processedIndex s"
  "auditResults (snd (getAllGroups e s)) = auditResults s"
  by (simp_all add: getAllGroups_def Let_def)

lemma getAllGroups_raises:
  "fst (getAllGroups e s) = Inl err \<Longrightarrow> groupsCache s = Some Malformed"
  by (cases "groupsCache s" rule: truthy.cases) (simp_all add: getAllGroups_def Let_def)

lemma missing_same_run:
  assumes m: "\<not> truthy (processedIndex s)" "\<not> truthy (auditResults s)"
  defines "d \<equiv> s\<lparr>processedIndex := Some (Denotes 0), auditResults := Some (Denotes [])\<rparr>"
  shows "snd (auditGroupsWithoutOwners cfg e s) = snd (auditGroupsWithoutOwners cfg e d)"
    and "groupsCache s \<noteq> Some Malformed \<Longrightarrow>
          auditGroupsWithoutOwners cfg e s = auditGroupsWithoutOwners cfg e d"
proof -
  obtain x s1 where g: "getAllGroups e s = (x, s1)" by force
  then have gd: "getAllGroups e d
      = (x, s1\<lparr>processedIndex := Some (Denotes 0), auditResults := Some (Denotes [])\<rparr>)"
    unfolding d_def getAllGroups_overwrites by simp
  from g getAllGroups_keeps [of e s] m have l: "loadIndex s1 = Some 0" "loadResults s1 = Inr []"
    by (simp_all add: loadIndex_missing loadResults_missing)
  have ld: "loadIndex (s1\<lparr>processedIndex := Some (Denotes 0), auditResults := Some (Denotes [])\<rparr>) = Some 0"
    "loadResults (s1\<lparr>processedIndex := Some (Denotes 0), auditResults := Some (Denotes [])\<rparr>) = Inr []"
    by (simp_all add: loadIndex_def loadResults_def)
  show "snd (auditGroupsWithoutOwners cfg e s) = snd (auditGroupsWithoutOwners cfg e d)"
    by (cases x) (simp_all add: auditGroupsWithoutOwners_def g gd l ld runBatch_overwrites)
  show "auditGroupsWithoutOwners cfg e s = auditGroupsWithoutOwners cfg e d"
    if "groupsCache s \<noteq> Some Malformed"
  proof (cases x)
    case (Inl err)
    with g getAllGroups_raises [of e s err] that show ?thesis by simp
  next
    case (Inr gs)
    then show ?thesis
      by (simp add: auditGroupsWithoutOwners_def g gd l ld runBatch_overwrites)
  qed
qed

text \<open>
  C9 as stated fails for corrupted state. An \<^verbatim>\<open>auditResults\<close> text that is not JSON
  makes \<^verbatim>\<open>JSON.parse\<close> throw, and the error escapes from the invocation; a
  \<^verbatim>\<open>processedIndex\<close> text that is not a number is read as NaN, not as 0.
\<close>

theorem corrupted_checkpoint_not_defaulted:
  "loadResults (fresh\<lparr>auditResults := Some Malformed\<rparr>) = Inl ''SyntaxError: Unexpected token''
   \<and> snd (auditGroupsWithoutOwners cfgBatch env1 (fresh\<lparr>auditResults := Some Malformed\<rparr>))
       = Raised ''SyntaxError: Unexpected token''
   \<and> loadIndex (fresh\<lparr>processedIndex := Some Malformed\<rparr>) = None
   \<and> loadIndex (fresh\<lparr>processedIndex := Some Malformed\<rparr>) \<noteq> Some 0"
  by (simp add: loadResults_def loadIndex_def auditGroupsWithoutOwners_def getAllGroups_def
      fresh_def Let_def JSON_stringify_def)

text \<open>
  C9, amended. When a checkpoint property is missing (not set, or empty), loading it
  yields the default without raising: index 0, an empty results list; and with both
  missing the invocation proceeds exactly as from a checkpoint that stores index 0 and
  no results. Corrupted state is not repaired: an \<^verbatim>\<open>auditResults\<close> text that is not
  JSON makes the load, and so the invocation, raise; a \<^verbatim>\<open>processedIndex\<close> text that
  is not a number loads as NaN.
\<close>

theorem missing_checkpoint_defaults:
  "(\<not> truthy (processedIndex s) \<longrightarrow> loadIndex s = Some 0)
   \<and> (\<not> truthy (auditResults s) \<longrightarrow> loadResults s = Inr [])
   \<and> (\<not> truthy (processedIndex s) \<and> \<not> truthy (auditResults s) \<longrightarrow>
        snd (auditGroupsWithoutOwners cfg e s)
          = snd (auditGroupsWithoutOwners cfg e
                  (s\<lparr>processedIndex := Some (Denotes 0), auditResults := Some (Denotes [])\<rparr>)))
   \<and> (\<not> truthy (processedIndex s) \<and> \<not> truthy (auditResults s)
        \<and> groupsCache s \<noteq> Some Malformed \<longrightarrow>
        auditGroupsWithoutOwners cfg e s
          = auditGroupsWithoutOwners cfg e
              (s\<lparr>processedIndex := Some (Denotes 0), auditResults := Some (Denotes [])\<rparr>))
   \<and> (auditResults s = Some Malformed \<longrightarrow>
        loadResults s = Inl ''SyntaxError: Unexpected token''
        \<and> (\<exists>err. snd (auditGroupsWithoutOwners cfg e s) = Raised err))
   \<and> (processedIndex s = Some Malformed \<longrightarrow> loadIndex s = None)"
proof (intro conjI impI)
  assume "\<not> truthy (processedIndex s)"
  then show "loadIndex s = Some 0" by (rule loadIndex_missing)
next
  assume "\<not> truthy (auditResults s)"
  then show "loadResults s = Inr []" by (rule loadResults_missing)
next
  assume "\<not> truthy (processedIndex s) \<and> \<not> truthy (auditResults s)"
  then show "snd (auditGroupsWithoutOwners cfg e s)
      = snd (auditGroupsWithoutOwners cfg e
              (s\<lparr>processedIndex := Some (Denotes 0), auditResults := Some (Denotes [])\<rparr>))"
    using missing_same_run(1) [of s cfg e] by simp
next
  assume "\<not> truthy (processedIndex s) \<and> \<not> truthy (auditResults s)
      \<and> groupsCache s \<noteq> Some Malformed"
  then show "auditGroupsWithoutOwners cfg e s
      = auditGroupsWithoutOwners cfg e
          (s\<lparr>processedIndex := Some (Denotes 0), auditResults := Some (Denotes [])\<rparr>)"
    using missing_same_run(2) [of s cfg e] by simp
next
  assume a: "auditResults s = Some Malformed"
  then show "loadResults s = Inl ''SyntaxError: Unexpected token''"
    by (simp add: loadResults_def)
  obtain x s1 where g: "getAllGroups e s = (x, s1)" by force
  with a getAllGroups_keeps(2) [of e s]
  have l: "loadResults s1 = Inl ''SyntaxError: Unexpected token''"
    by (simp add: loadResults_def)
  show "\<exists>err. snd (auditGroupsWithoutOwners cfg e s) = Raised err"
    by (cases x) (simp_all add: auditGroupsWithoutOwners_def g l)
next
  assume "processedIndex s = Some Malformed"
  then show "loadIndex s = None" by (simp add: loadIndex_def)
qed

text \<open>
  On the fresh store both loads give the defaults and the first invocation audits the
  first batch; on a store whose results text is corrupted the invocation raises.
\<close>

theorem missing_checkpoint_defaults_witness:
  "\<not> truthy (processedIndex fresh) \<and> \<not> truthy (auditResults fresh)
   \<and> groupsCache fresh \<noteq> Some Malformed
   \<and> loadIndex fresh = Some 0
   \<and> loadResults fresh = Inr []
   \<and> auditGroupsWithoutOwners cfgBatch env1 fresh
       = auditGroupsWithoutOwners cfgBatch env1
           (fresh\<lparr>processedIndex := Some (Denotes 0), auditResults := Some (Denotes [])\<rparr>)
   \<and> auditResults (fresh\<lparr>auditResults := Some Malformed\<rparr>) = Some Malformed
   \<and> (\<exists>err. snd (auditGroupsWithoutOwners cfgBatch env1 (fresh\<lparr>auditResults := Some Malformed\<rparr>))
          = Raised err)"
proof -
  have a: "\<not> truthy (processedIndex fresh)" and b: "\<not> truthy (auditResults fresh)"
    and c: "groupsCache fresh \<noteq> Some Malformed"
    by (simp_all add: fresh_def)
  have d: "auditResults (fresh\<lparr>auditResults := Some Malformed\<rparr>) = Some Malformed"
    by simp
  note t = missing_checkpoint_defaults [of fresh cfgBatch env1]
  note t' = missing_checkpoint_defaults [of "fresh\<lparr>auditResults := Some Malformed\<rparr>" cfgBatch env1]
  from t a have e: "loadIndex fresh = Some 0" by blast
  from t b have f: "loadResults fresh = Inr []" by blast
  from t a b c have g: "auditGroupsWithoutOwners cfgBatch env1 fresh
       = auditGroupsWithoutOwners cfgBatch env1
           (fresh\<lparr>processedIndex := Some (Denotes 0), auditResults := Some (Denotes [])\<rparr>)"
    by blast
  from t' d have h: "\<exists>err. snd (auditGroupsWithoutOwners cfgBatch env1
      (fresh\<lparr>auditResults := Some Malformed\<rparr>)) = Raised err"
    by blast
  show ?thesis by (intro conjI a b c e f g d h)
qed

lemma slice_in_range:
  assumes "0 \<le> a" "a \<le> b" "b \<le> int (length xs)"
  shows "slice xs (Some a) (Some b) = take (nat (b - a)) (drop (nat a) xs)"
  using assms by (simp add: slice_def Let_def min_def)

lemma length_slice_in_range:
  assumes "0 \<le> a" "a \<le> b" "b \<le> int (length xs)"
  shows "int (length (slice xs (Some a) (Some b))) = b - a"
proof -
  have "length (slice xs (Some a) (Some b)) = min (length xs - nat a) (nat (b - a))"
    using assms by (simp add: slice_in_range)
  also have "\<dots> = nat (b - a)" using assms by linarith
  finally show ?thesis using assms by simp
qed

lemma batchLoop_bounds:
  "i \<le> snd (batchLoop cfg e gs i) \<and> snd (batchLoop cfg e gs i) \<le> i + length gs"
proof (induction gs arbitrary: i)
  case Nil
  show ?case by simp
next
  case (Cons g gs)
  obtain rs k where b: "batchLoop cfg e gs (Suc i) = (rs, k)" by force
  with Cons.IH [of "Suc i"] have "Suc i \<le> k" "k \<le> Suc i + length gs" by simp_all
  with b show ?case by simp
qed

text \<open>What the batch part does from an index within the list.\<close>

lemma runBatch_step:
  assumes "0 \<le> i" "i \<le> int (length gs)"
  shows "\<exists>batch i'. i \<le> i' \<and> i' \<le> int (length gs)
     \<and> i' \<le> i + int (BATCH_SIZE cfg)
     \<and> runBatch cfg e gs s1 (Some i) rs =
         (if int (length gs) \<le> i'
          then (case reportFails e of
                  Some err \<Rightarrow>
                    (s1\<lparr>processedIndex := Some (Denotes i'),
                        auditResults := Some (Denotes (rs @ batch))\<rparr>, Raised err)
                | None \<Rightarrow>
                    (s1\<lparr>processedIndex := None, auditResults := None\<rparr>,
                     Completed (rs @ batch) (length gs)))
          else (s1\<lparr>processedIndex := Some (Denotes i'),
                   auditResults := Some (Denotes (rs @ batch))\<rparr>, InProgress))"
proof -
  let ?fin = "min (i + int (BATCH_SIZE cfg)) (int (length gs))"
  let ?bg = "slice gs (Some i) (Some ?fin)"
  obtain batch k where b: "batchLoop cfg e ?bg 0 = (batch, k)" by force
  have "int (length ?bg) = ?fin - i"
    using assms by (intro length_slice_in_range) simp_all
  moreover from batchLoop_bounds [of 0 cfg e ?bg] b have "k \<le> length ?bg" by simp
  ultimately have k: "i + int k \<le> ?fin" by linarith
  have "runBatch cfg e gs s1 (Some i) rs =
         (if int (length gs) \<le> i + int k
          then (case reportFails e of
                  Some err \<Rightarrow>
                    (s1\<lparr>processedIndex := Some (Denotes (i + int k)),
                        auditResults := Some (Denotes (rs @ batch))\<rparr>, Raised err)
                | None \<Rightarrow>
                    (s1\<lparr>processedIndex := None, auditResults := None\<rparr>,
                     Completed (rs @ batch) (length gs)))
          else (s1\<lparr>processedIndex := Some (Denotes (i + int k)),
                   auditResults := Some (Denotes (rs @ batch))\<rparr>, InProgress))"
    by (simp add: runBatch_def b Let_def JSON_stringify_def split: option.splits)
  moreover have "i \<le> i + int k" "i + int k \<le> int (length gs)" "i + int k \<le> i + int (BATCH_SIZE cfg)"
    using k by simp_all
  ultimately show ?thesis by blast
qed

text \<open>What a checkpoint in order loads to, and what the invocation finds as the list.\<close>

lemma checkpointOk_loads:
  assumes "checkpointOk s"
  shows "\<exists>gs s1 i rs. getAllGroups e s = (Inr gs, s1)
     \<and> s1 = s\<lparr>groupsCache := Some (Denotes gs)\<rparr>
     \<and> (groupsCache s = None \<or> groupsCache s = Some (Denotes gs))
     \<and> loadIndex s1 = Some i \<and> loadIndex s = Some i
     \<and> loadResults s1 = Inr rs \<and> loadResults s = Inr rs
     \<and> 0 \<le> i \<and> i \<le> int (length gs)"
proof (cases "groupsCache s")
  case None
  with assms have "processedIndex s = None" "auditResults s = None"
    by (simp_all add: checkpointOk_def)
  with None show ?thesis
    by (simp add: getAllGroups_def loadIndex_def loadResults_def Let_def JSON_stringify_def)
next
  case (Some t)
  with assms obtain gs where t: "t = Denotes gs"
    by (cases t) (simp_all add: checkpointOk_def)
  have s1: "s\<lparr>groupsCache := Some (Denotes gs)\<rparr> = s" using Some t by simp
  from assms Some t have "\<exists>i. loadIndex s = Some i \<and> 0 \<le> i \<and> i \<le> int (length gs)"
    by (cases "processedIndex s" rule: truthy.cases)
       (simp_all add: checkpointOk_def loadIndex_def)
  moreover from assms Some t have "\<exists>rs. loadResults s = Inr rs"
    by (cases "auditResults s" rule: truthy.cases)
       (simp_all add: checkpointOk_def loadResults_def)
  moreover have "getAllGroups e s = (Inr gs, s)"
    using Some t by (simp add: getAllGroups_def)
  ultimately show ?thesis using Some t s1 by auto
qed

lemma audit_step:
  assumes ok: "checkpointOk s"
  shows "\<exists>i i' rs rs' gs batch.
       loadIndex s = Some i \<and> loadResults s = Inr rs
     \<and> loadIndex (fst (auditGroupsWithoutOwners cfg e s)) = Some i'
     \<and> loadResults (fst (auditGroupsWithoutOwners cfg e s)) = Inr rs'
     \<and> groupsCache (fst (auditGroupsWithoutOwners cfg e s)) = Some (Denotes gs)
     \<and> (groupsCache s = None \<or> groupsCache s = Some (Denotes gs))
     \<and> 0 \<le> i' \<and> i' \<le> int (length gs)
     \<and> checkpointOk (fst (auditGroupsWithoutOwners cfg e s))
     \<and> (case snd (auditGroupsWithoutOwners cfg e s) of
          Completed out n \<Rightarrow>
            out = rs @ batch \<and> n = length gs
            \<and> processedIndex (fst (auditGroupsWithoutOwners cfg e s)) = None
            \<and> auditResults (fst (auditGroupsWithoutOwners cfg e s)) = None
        | InProgress \<Rightarrow> i \<le> i' \<and> i' < int (length gs) \<and> rs' = rs @ batch
        | Raised err \<Rightarrow> reportFails e = Some err \<and> i \<le> i' \<and> rs' = rs @ batch)"
proof -
  let ?r = "auditGroupsWithoutOwners cfg e s"
  from checkpointOk_loads [OF ok, of e]
  obtain gs s1 i rs where g: "getAllGroups e s = (Inr gs, s1)"
    and s1: "s1 = s\<lparr>groupsCache := Some (Denotes gs)\<rparr>"
    and c: "groupsCache s = None \<or> groupsCache s = Some (Denotes gs)"
    and l: "loadIndex s1 = Some i" "loadIndex s = Some i"
           "loadResults s1 = Inr rs" "loadResults s = Inr rs"
    and i: "0 \<le> i" "i \<le> int (length gs)"
    by blast
  have r: "?r = runBatch cfg e gs s1 (Some i) rs"
    by (simp add: auditGroupsWithoutOwners_def g l)
  from runBatch_step [OF i, of cfg e s1 rs]
  obtain batch i' where i': "i \<le> i'" "i' \<le> int (length gs)"
    and rb: "runBatch cfg e gs s1 (Some i) rs =
         (if int (length gs) \<le> i'
          then (case reportFails e of
                  Some err \<Rightarrow>
                    (s1\<lparr>processedIndex := Some (Denotes i'),
                        auditResults := Some (Denotes (rs @ batch))\<rparr>, Raised err)
                | None \<Rightarrow>
                    (s1\<lparr>processedIndex := None, auditResults := None\<rparr>,
                     Completed (rs @ batch) (length gs)))
          else (s1\<lparr>processedIndex := Some (Denotes i'),
                   auditResults := Some (Denotes (rs @ batch))\<rparr>, InProgress))"
    by blast
  let ?saved = "s1\<lparr>processedIndex := Some (Denotes i'), auditResults := Some (Denotes (rs @ batch))\<rparr>"
  let ?cleared = "s1\<lparr>processedIndex := None, auditResults := None\<rparr>"
  have saved: "loadIndex ?saved = Some i'" "loadResults ?saved = Inr (rs @ batch)"
    "groupsCache ?saved = Some (Denotes gs)" "checkpointOk ?saved"
    using i i' by (simp_all add: loadIndex_def loadResults_def checkpointOk_def s1)
  have cleared: "loadIndex ?cleared = Some 0" "loadResults ?cleared = Inr []"
    "groupsCache ?cleared = Some (Denotes gs)" "checkpointOk ?cleared"
    "processedIndex ?cleared = None" "auditResults ?cleared = None"
    by (simp_all add: loadIndex_def loadResults_def checkpointOk_def s1)
  consider (progress) "i' < int (length gs)"
    | (failed) err where "int (length gs) \<le> i'" "reportFails e = Some err"
    | (completed) "int (length gs) \<le> i'" "reportFails e = None"
    by (cases "reportFails e") force+
  then show ?thesis
  proof cases
    case progress
    then have "?r = (?saved, InProgress)" unfolding r rb by simp
    with saved l c i i' progress show ?thesis
      by (intro exI [of _ i] exI [of _ i'] exI [of _ rs] exI [of _ "rs @ batch"]
          exI [of _ gs] exI [of _ batch]) simp
  next
    case failed
    then have "?r = (?saved, Raised err)" unfolding r rb by simp
    with saved l c i i' failed show ?thesis
      by (intro exI [of _ i] exI [of _ i'] exI [of _ rs] exI [of _ "rs @ batch"]
          exI [of _ gs] exI [of _ batch]) simp
  next
    case completed
    then have "?r = (?cleared, Completed (rs @ batch) (length gs))" unfolding r rb by simp
    with cleared l c show ?thesis
      by (intro exI [of _ i] exI [of _ 0] exI [of _ rs] exI [of _ "[]"]
          exI [of _ gs] exI [of _ batch]) simp
  qed
qed

lemma checkpointOk_run:
  "checkpointOk s \<Longrightarrow> checkpointOk (fst (auditGroupsWithoutOwners cfg e s))"
  using audit_step [of s cfg e] by blast

lemma checkpointOk_runs:
  "checkpointOk s \<Longrightarrow> checkpointOk (auditRuns cfg es s)"
  by (induction es arbitrary: s) (simp_all add: checkpointOk_run)

lemma checkpointOk_reset: "checkpointOk (resetAudit s)"
  by (simp add: checkpointOk_def resetAudit_def)

text \<open>
  C8. Take any sequence of invocations after a reset, and one more invocation after
  them. Before and after it the index and the results load without error; after it the
  cached list is set (and is the list that was cached before, if there was one), and the
  index lies between 0 and the length of the cached list. If the invocation does not
  complete the audit, the index has not decreased and the results are the earlier
  results with this batch's results appended. If it completes the audit, the report holds
  the earlier results with this batch's appended, and the index and the results are
  cleared. (The invocation raises only when the report generation throws; the progress
  is then saved as in the first case.)
\<close>

theorem checkpoint_monotone:
  "\<exists>i i' rs rs' gs batch.
       loadIndex (auditRuns cfg es (resetAudit s0)) = Some i
     \<and> loadResults (auditRuns cfg es (resetAudit s0)) = Inr rs
     \<and> loadIndex (fst (auditGroupsWithoutOwners cfg e (auditRuns cfg es (resetAudit s0)))) = Some i'
     \<and> loadResults (fst (auditGroupsWithoutOwners cfg e (auditRuns cfg es (resetAudit s0)))) = Inr rs'
     \<and> groupsCache (fst (auditGroupsWithoutOwners cfg e (auditRuns cfg es (resetAudit s0))))
         = Some (Denotes gs)
     \<and> (groupsCache (auditRuns cfg es (resetAudit s0)) = None
         \<or> groupsCache (auditRuns cfg es (resetAudit s0)) = Some (Denotes gs))
     \<and> 0 \<le> i' \<and> i' \<le> int (length gs)
     \<and> (case snd (auditGroupsWithoutOwners cfg e (auditRuns cfg es (resetAudit s0))) of
          Completed out n \<Rightarrow>
            out = rs @ batch \<and> n = length gs
            \<and> processedIndex (fst (auditGroupsWithoutOwners cfg e (auditRuns cfg es (resetAudit s0)))) = None
            \<and> auditResults (fst (auditGroupsWithoutOwners cfg e (auditRuns cfg es (resetAudit s0)))) = None
        | InProgress \<Rightarrow> i \<le> i' \<and> i' < int (length gs) \<and> rs' = rs @ batch
        | Raised err \<Rightarrow> reportFails e = Some err \<and> i \<le> i' \<and> rs' = rs @ batch)"
proof -
  have "checkpointOk (auditRuns cfg es (resetAudit s0))"
    by (intro checkpointOk_runs checkpointOk_reset)
  from audit_step [OF this, of cfg e] show ?thesis by blast
qed

lemma run_first:
  "auditGroupsWithoutOwners cfgBatch env1 fresh
     = (\<lparr>processedIndex = Some (Denotes 2), auditResults = Some (Denotes [opsResult]),
         groupsCache = Some (Denotes [g1, g2, g3])\<rparr>, InProgress)"
  by code_simp

lemma run_second:
  "auditGroupsWithoutOwners cfgBatch env1
       \<lparr>processedIndex = Some (Denotes 2), auditResults = Some (Denotes [opsResult]),
         groupsCache = Some (Denotes [g1, g2, g3])\<rparr>
     = (\<lparr>processedIndex = None, auditResults = None,
         groupsCache = Some (Denotes [g1, g2, g3])\<rparr>, Completed [opsResult, devResult] 3)"
  by code_simp

lemma run_third:
  "auditGroupsWithoutOwners cfgBatch env2
       \<lparr>processedIndex = None, auditResults = None,
         groupsCache = Some (Denotes [g1, g2, g3])\<rparr>
     = (\<lparr>processedIndex = Some (Denotes 2), auditResults = Some (Denotes [opsResult]),
         groupsCache = Some (Denotes [g1, g2, g3])\<rparr>, InProgress)"
  by code_simp

lemma run_fourth:
  "auditGroupsWithoutOwners cfgBatch env2
       \<lparr>processedIndex = Some (Denotes 2), auditResults = Some (Denotes [opsResult]),
         groupsCache = Some (Denotes [g1, g2, g3])\<rparr>
     = (\<lparr>processedIndex = None, auditResults = None,
         groupsCache = Some (Denotes [g1, g2, g3])\<rparr>, Completed [opsResult, devResult] 3)"
  by code_simp

lemma reset_fresh: "resetAudit fresh = fresh"
  by (simp add: resetAudit_def fresh_def)

text \<open>
  Three groups in batches of two: the first invocation leaves the index at 2 with one
  result, the second completes the audit, reports both results and clears the index.
\<close>

theorem checkpoint_monotone_witness:
  "loadIndex (auditRuns cfgBatch [] (resetAudit fresh)) = Some 0
   \<and> loadIndex (fst (auditGroupsWithoutOwners cfgBatch env1 (auditRuns cfgBatch [] (resetAudit fresh))))
       = Some 2
   \<and> loadResults (fst (auditGroupsWithoutOwners cfgBatch env1 (auditRuns cfgBatch [] (resetAudit fresh))))
       = Inr [opsResult]
   \<and> snd (auditGroupsWithoutOwners cfgBatch env1 (auditRuns cfgBatch [] (resetAudit fresh)))
       = InProgress
   \<and> snd (auditGroupsWithoutOwners cfgBatch env1 (auditRuns cfgBatch [env1] (resetAudit fresh)))
       = Completed [opsResult, devResult] 3
   \<and> loadIndex (fst (auditGroupsWithoutOwners cfgBatch env1 (auditRuns cfgBatch [env1] (resetAudit fresh))))
       = Some 0"
  using checkpoint_monotone [of cfgBatch "[]" fresh env1]
        checkpoint_monotone [of cfgBatch "[env1]" fresh env1]
  by (simp add: reset_fresh run_first run_second loadIndex_def loadResults_def)
     (simp add: fresh_def)

text \<open>
  C7 does not hold of the code. When the index reaches the length of the list,
  the invocation emits the report with all accumulated results and deletes
  \<^verbatim>\<open>processedIndex\<close> and \<^verbatim>\<open>auditResults\<close>, but it leaves \<^verbatim>\<open>groupsCache\<close> set;
  only \<^verbatim>\<open>resetAudit\<close> deletes it. After the audit of three groups has completed, the
  property still holds the three groups, and the next cycle, run when the directory has
  a fourth group, audits and reports the same three.
\<close>

theorem completion_keeps_groupsCache:
  "auditGroupsWithoutOwners cfgBatch env1 (auditRuns cfgBatch [env1] fresh)
     = (\<lparr>processedIndex = None, auditResults = None,
         groupsCache = Some (Denotes [g1, g2, g3])\<rparr>, Completed [opsResult, devResult] 3)
   \<and> groupsCache (auditRuns cfgBatch [env1, env1] fresh) = Some (Denotes [g1, g2, g3])
   \<and> groupsCache (resetAudit (auditRuns cfgBatch [env1, env1] fresh)) = None
   \<and> fetchGroups (groupsList env2) = [g1, g2, g3, g4]
   \<and> auditGroupsWithoutOwners cfgBatch env2 (auditRuns cfgBatch [env1, env1, env2] fresh)
     = (\<lparr>processedIndex = None, auditResults = None,
         groupsCache = Some (Denotes [g1, g2, g3])\<rparr>, Completed [opsResult, devResult] 3)"
proof -
  have f: "fetchGroups (groupsList env2) = [g1, g2, g3, g4]"
    by (simp add: env2_def)
  show ?thesis
    unfolding f by (simp add: run_first run_second run_third run_fourth resetAudit_def)
qed

section \<open>Further properties of the scripts\<close>

lemma inactiveFilter_None_iff:
  "(inactiveFilter m c u = None) = (\<not> checkIfUserInactive u m c)"
  by (simp add: inactiveFilter_def checkIfUserInactive_def Let_def)

lemma inactiveFilter_Some:
  "inactiveFilter m c u = Some u' \<Longrightarrow>
     checkIfUserInactive u m c
     \<and> u' = u\<lparr>lastLoginTime :=
              (if truthy (m (toLowerCase (primaryEmail u)))
               then m (toLowerCase (primaryEmail u)) else lastLoginTime u)\<rparr>"
  by (auto simp: inactiveFilter_def checkIfUserInactive_def Let_def split: if_splits)

lemma filterPages_fetched:
  "filterPages m c p = List.map_filter (inactiveFilter m c) (served p)"
  by (induction p) (simp_all add: List.map_filter_def)

lemma map_filter_inactive_emails:
  "map primaryEmail (List.map_filter (inactiveFilter m c) us)
     = map primaryEmail (filter (\<lambda>u. checkIfUserInactive u m c) us)"
proof (induction us)
  case Nil
  show ?case by (simp add: List.map_filter_simps)
next
  case (Cons u us)
  show ?case
  proof (cases "inactiveFilter m c u")
    case None
    with Cons inactiveFilter_None_iff [of m c u] show ?thesis
      by (simp add: List.map_filter_simps)
  next
    case (Some u')
    with inactiveFilter_Some [OF Some] Cons show ?thesis
      by (simp add: List.map_filter_simps)
  qed
qed

text \<open>
  The user enumerator. \<^verbatim>\<open>getInactiveUsers\<close> returns, in the order of the listing, the users that the
  classifier finds inactive among those on the pages the Directory served before a call
  threw (all users, when no call throws); no user classified ACTIVE is returned.
\<close>

theorem getInactiveUsers_enumerates:
  "map primaryEmail (getInactiveUsers formatDate activities usersList now cutoffDate)
     = map primaryEmail
         (filter (\<lambda>u. checkIfUserInactive u
                    (getLoginActivityFromReports formatDate activities now cutoffDate) cutoffDate)
            (served usersList))"
  by (simp add: getInactiveUsers_def filterPages_fetched map_filter_inactive_emails)

text \<open>
  Bob logged in exactly at the cutoff and is dropped, Carol never logged in and is
  returned; the call for the second page of the listing throws, and the listing ends
  there.
\<close>

theorem getInactiveUsers_enumerates_witness:
  "served (MorePage (Some [bob, carol]) (Throws ''Backend Error'')) = [bob, carol]
   \<and> map primaryEmail
        (getInactiveUsers (\<lambda>t. t) reports1
           (MorePage (Some [bob, carol]) (Throws ''Backend Error'')) 1761955200000 1740787200000)
      = [''carol@example.com'']"
proof -
  let ?m = "getLoginActivityFromReports (\<lambda>t. t) reports1 1761955200000 1740787200000"
  have m: "?m = [''alice@example.com'' \<mapsto> Denotes 1761000000000,
                 ''bob@example.com'' \<mapsto> Denotes 1740787200000]"
  proof -
    have "?m = foldl recordActivity Map.empty [act1, act2, act3, act4]"
      by (simp add: getLoginActivityFromReports_def reports1_def)
    also have "\<dots> = [''alice@example.com'' \<mapsto> Denotes 1761000000000,
                 ''bob@example.com'' \<mapsto> Denotes 1740787200000]"
    proof -
      have l: "toLowerCase ''Alice@Example.com'' = ''alice@example.com''"
        "toLowerCase ''alice@example.com'' = ''alice@example.com''"
        "toLowerCase ''bob@example.com'' = ''bob@example.com''"
        by code_simp+
      show ?thesis
        by (rule ext)
           (simp add: recordActivity_def Let_def act1_def act2_def act3_def act4_def l)
    qed
    finally show ?thesis .
  qed
  have b: "\<not> checkIfUserInactive bob ?m 1740787200000"
    unfolding m by (simp add: checkIfUserInactive_def Let_def bob_def lower_bob)
  have c: "checkIfUserInactive carol ?m 1740787200000"
    unfolding m by (simp add: checkIfUserInactive_def Let_def carol_def lower_carol)
  have s: "served (MorePage (Some [bob, carol]) (Throws ''Backend Error'')) = [bob, carol]"
    by simp
  from getInactiveUsers_enumerates [of "\<lambda>t. t" reports1
      "MorePage (Some [bob, carol]) (Throws ''Backend Error'')" 1761955200000 1740787200000]
  have "map primaryEmail
        (getInactiveUsers (\<lambda>t. t) reports1
           (MorePage (Some [bob, carol]) (Throws ''Backend Error'')) 1761955200000 1740787200000)
      = [''carol@example.com'']"
    unfolding s using b c by (simp add: carol_def)
  with s show ?thesis by simp
qed

lemma collectLogins_served:
  "collectLogins m p = foldl recordActivity m (served p)"
  by (induction p arbitrary: m) simp_all

lemma recordActivity_other:
  assumes "actorEmail a = None \<or> actorEmail a = Some [] \<or> (\<exists>e. actorEmail a = Some e \<and> toLowerCase e \<noteq> who)"
  shows "recordActivity m a who = m who"
  using assms by (auto simp: recordActivity_def Let_def)

lemma recordActivity_same:
  assumes "actorEmail a = Some e" "e \<noteq> []" "toLowerCase e = who" "idTime a = Denotes t"
    and "getTime (m who) = cur" "m who = None \<or> (\<exists>t0. m who = Some (Denotes t0))"
  shows "recordActivity m a who = Some (Denotes (case cur of None \<Rightarrow> t | Some t0 \<Rightarrow> max t0 t))"
  using assms by (auto simp: recordActivity_def Let_def max_def)

lemma foldl_recordActivity:
  assumes "\<forall>a \<in> set xs. \<exists>t. idTime a = Denotes t"
    and "m who = None \<or> (\<exists>t0. m who = Some (Denotes t0))"
  shows "foldl recordActivity m xs who
     = map_option Denotes (latest (getTime (m who)) (loginTimes who xs))"
  using assms
proof (induction xs arbitrary: m)
  case Nil
  then show ?case by auto
next
  case (Cons a xs)
  from Cons.prems(1) obtain t where t: "idTime a = Denotes t" by auto
  from Cons.prems(1) have rest: "\<forall>a \<in> set xs. \<exists>t. idTime a = Denotes t" by simp
  show ?case
  proof (cases "\<exists>e. actorEmail a = Some e \<and> e \<noteq> [] \<and> toLowerCase e = who")
    case True
    then obtain e where e: "actorEmail a = Some e" "e \<noteq> []" "toLowerCase e = who" by blast
    let ?m = "recordActivity m a"
    have m': "?m who = Some (Denotes (case getTime (m who) of None \<Rightarrow> t | Some t0 \<Rightarrow> max t0 t))"
      using e t Cons.prems(2) by (intro recordActivity_same) simp_all
    then have "?m who = None \<or> (\<exists>t0. ?m who = Some (Denotes t0))" by simp
    from Cons.IH [of "recordActivity m a", OF rest this] m' e t Cons.prems(2) show ?thesis
      by auto
  next
    case False
    then have o: "actorEmail a = None \<or> actorEmail a = Some []
        \<or> (\<exists>e. actorEmail a = Some e \<and> toLowerCase e \<noteq> who)"
      by (cases "actorEmail a") auto
    let ?m = "recordActivity m a"
    have m': "?m who = m who" using recordActivity_other [OF o] .
    with Cons.prems(2) have "?m who = None \<or> (\<exists>t0. ?m who = Some (Denotes t0))" by simp
    from Cons.IH [of "recordActivity m a", OF rest this] m' False t show ?thesis
      by (auto split: option.splits)
  qed
qed

lemma latest_Max:
  "latest cur ts = (if cur = None \<and> ts = [] then None
     else Some (Max (set (case cur of None \<Rightarrow> ts | Some t0 \<Rightarrow> t0 # ts))))"
proof (induction cur ts rule: latest.induct)
  case (2 t ts)
  then show ?case by simp
next
  case (4 t0 t ts)
  then show ?case
    by (cases "ts = []") (simp_all add: max.assoc max.commute max.left_commute)
qed simp_all

text \<open>
  The login map. When the times of the served login activities are well-formed, the login map of
  the resolver holds for each actor, under the lower-cased email, the most recent of the
  actor's login times, and nothing for an actor without a login.
\<close>

theorem loginMap_most_recent:
  assumes "\<forall>a \<in> set (served (activities (formatDate (startDate now cutoffDate)) (formatDate now))).
             \<exists>t. idTime a = Denotes t"
  shows "getLoginActivityFromReports formatDate activities now cutoffDate who
     = (let ts = loginTimes who
                   (served (activities (formatDate (startDate now cutoffDate)) (formatDate now)))
        in if ts = [] then None else Some (Denotes (Max (set ts))))"
  using foldl_recordActivity [of _ Map.empty who, OF assms]
  by (simp add: getLoginActivityFromReports_def collectLogins_served latest_Max Let_def)

text \<open>Alice's two logins, under two spellings of her email: the map holds the later one.\<close>

theorem loginMap_most_recent_witness:
  "map idTime (served (reports1 (startDate 1761955200000 1740787200000) 1761955200000))
     = [Denotes 1760000000000, Denotes 1740787200000, Denotes 1761000000000,
        Denotes 1761500000000]
   \<and> getLoginActivityFromReports (\<lambda>t. t) reports1 1761955200000 1740787200000
       ''alice@example.com'' = Some (Denotes 1761000000000)
   \<and> getLoginActivityFromReports (\<lambda>t. t) reports1 1761955200000 1740787200000
       ''carol@example.com'' = None"
proof -
  have h: "\<forall>a \<in> set (served (reports1 (startDate 1761955200000 1740787200000)
      1761955200000)). \<exists>t. idTime a = Denotes t"
    by (simp add: reports1_def act1_def act2_def act3_def act4_def)
  note t = loginMap_most_recent [where formatDate = "\<lambda>t. t" and activities = reports1
      and now = 1761955200000 and cutoffDate = 1740787200000, OF h]
  have s: "served (reports1 x y) = [act1, act2, act3, act4]" for x y
    by (simp add: reports1_def)
  have a: "loginTimes ''alice@example.com'' [act1, act2, act3, act4]
      = [1760000000000, 1761000000000]"
    by code_simp
  have c: "loginTimes ''carol@example.com'' [act1, act2, act3, act4] = []"
    by code_simp
  from t [of "''alice@example.com''"]
  have x: "getLoginActivityFromReports (\<lambda>t. t) reports1 1761955200000 1740787200000
       ''alice@example.com'' = Some (Denotes 1761000000000)"
    unfolding s a by simp
  from t [of "''carol@example.com''"]
  have y: "getLoginActivityFromReports (\<lambda>t. t) reports1 1761955200000 1740787200000
       ''carol@example.com'' = None"
    unfolding s c by simp
  have i: "map idTime (served (reports1 (startDate 1761955200000 1740787200000) 1761955200000))
     = [Denotes 1760000000000, Denotes 1740787200000, Denotes 1761000000000,
        Denotes 1761500000000]"
    unfolding s by (simp add: act1_def act2_def act3_def act4_def)
  show ?thesis by (intro conjI i x y)
qed

lemma find_prefix_Some:
  assumes "list_ex P xs"
  shows "\<exists>x. find P xs = Some x \<and> x \<in> set xs \<and> P x"
  using assms by (induction xs) auto

text \<open>
  The exclusion rules. An administrator (primary or delegated) is excluded when the
  exclusion of administrators is enabled, and the reason reported is "Admin user" also
  when the user is in an excluded organizational unit. Otherwise a user is excluded
  exactly when an excluded path is a prefix of the user's path (\<^verbatim>\<open>/Legal\<close> excludes
  \<^verbatim>\<open>/Legal/Subteam\<close>), and the reason names such a path (no configured path being
  empty). A user that is not excluded has the reason "Unknown".
\<close>

theorem exclusion_rules:
  "(EXCLUDE_ADMINS cfg \<and> (isAdmin u \<or> isDelegatedAdmin u) \<longrightarrow>
      shouldExcludeUser cfg u \<and> getExclusionReason cfg u = ''Admin user'')
   \<and> (\<not> (EXCLUDE_ADMINS cfg \<and> (isAdmin u \<or> isDelegatedAdmin u)) \<longrightarrow>
        shouldExcludeUser cfg u
          = (\<exists>excludedOU \<in> set (EXCLUDED_OU_PATHS cfg).
               prefix excludedOU (orElse (orgUnitPath u) ''/'')))
   \<and> (\<not> (EXCLUDE_ADMINS cfg \<and> (isAdmin u \<or> isDelegatedAdmin u))
        \<and> shouldExcludeUser cfg u \<and> [] \<notin> set (EXCLUDED_OU_PATHS cfg) \<longrightarrow>
        (\<exists>matchedOU \<in> set (EXCLUDED_OU_PATHS cfg).
           prefix matchedOU (orElse (orgUnitPath u) ''/'')
           \<and> getExclusionReason cfg u = ''In excluded OU: '' @ matchedOU))
   \<and> (\<not> shouldExcludeUser cfg u \<longrightarrow> getExclusionReason cfg u = ''Unknown'')"
proof (intro conjI impI)
  assume "EXCLUDE_ADMINS cfg \<and> (isAdmin u \<or> isDelegatedAdmin u)"
  then show "shouldExcludeUser cfg u" and "getExclusionReason cfg u = ''Admin user''"
    by (simp_all add: shouldExcludeUser_def getExclusionReason_def)
next
  assume "\<not> (EXCLUDE_ADMINS cfg \<and> (isAdmin u \<or> isDelegatedAdmin u))"
  then show "shouldExcludeUser cfg u
      = (\<exists>excludedOU \<in> set (EXCLUDED_OU_PATHS cfg).
           prefix excludedOU (orElse (orgUnitPath u) ''/''))"
    by (auto simp: shouldExcludeUser_def list_ex_iff)
next
  let ?P = "\<lambda>excludedOU. prefix excludedOU (orElse (orgUnitPath u) ''/'')"
  assume a: "\<not> (EXCLUDE_ADMINS cfg \<and> (isAdmin u \<or> isDelegatedAdmin u))
      \<and> shouldExcludeUser cfg u \<and> [] \<notin> set (EXCLUDED_OU_PATHS cfg)"
  then have ex: "EXCLUDED_OU_PATHS cfg \<noteq> []" "list_ex ?P (EXCLUDED_OU_PATHS cfg)"
    by (auto simp: shouldExcludeUser_def split: if_splits)
  from find_prefix_Some [OF ex(2)]
  obtain m where m: "find ?P (EXCLUDED_OU_PATHS cfg) = Some m"
      "m \<in> set (EXCLUDED_OU_PATHS cfg)" "?P m" by blast
  with a have "m \<noteq> []" by auto
  with a m ex have "getExclusionReason cfg u = ''In excluded OU: '' @ m"
    by (simp add: getExclusionReason_def)
  with m show "\<exists>matchedOU \<in> set (EXCLUDED_OU_PATHS cfg).
      prefix matchedOU (orElse (orgUnitPath u) ''/'')
      \<and> getExclusionReason cfg u = ''In excluded OU: '' @ matchedOU"
    by blast
next
  assume n: "\<not> shouldExcludeUser cfg u"
  then have adm: "\<not> (EXCLUDE_ADMINS cfg \<and> (isAdmin u \<or> isDelegatedAdmin u))"
    by (auto simp: shouldExcludeUser_def)
  show "getExclusionReason cfg u = ''Unknown''"
  proof (cases "EXCLUDED_OU_PATHS cfg = []")
    case True
    with adm show ?thesis by (simp add: getExclusionReason_def)
  next
    case False
    with n adm have "\<not> list_ex (\<lambda>excludedOU. prefix excludedOU (orElse (orgUnitPath u) ''/''))
        (EXCLUDED_OU_PATHS cfg)"
      by (auto simp: shouldExcludeUser_def split: if_splits)
    then have "find (\<lambda>excludedOU. prefix excludedOU (orElse (orgUnitPath u) ''/''))
        (EXCLUDED_OU_PATHS cfg) = None"
      by (simp add: find_None_iff list_ex_iff)
    with adm False show ?thesis by (simp add: getExclusionReason_def)
  qed
qed

text \<open>
  Henry, a delegated administrator in a unit under legal hold, is excluded as "Admin
  user"; Ivy, in the same unit, is excluded for the unit; Erin is not excluded.
\<close>

theorem exclusion_rules_witness:
  "EXCLUDE_ADMINS cfgLive \<and> isDelegatedAdmin henry
   \<and> shouldExcludeUser cfgLive henry \<and> getExclusionReason cfgLive henry = ''Admin user''
   \<and> prefix ''/LH - legal hold'' (orElse (orgUnitPath henry) ''/'')
   \<and> shouldExcludeUser cfgLive ivy
   \<and> getExclusionReason cfgLive ivy = ''In excluded OU: /LH - legal hold''
   \<and> \<not> shouldExcludeUser cfgLive erin
   \<and> getExclusionReason cfgLive erin = ''Unknown''"
proof -
  have a: "EXCLUDE_ADMINS cfgLive \<and> (isAdmin henry \<or> isDelegatedAdmin henry)"
    by (simp add: cfgLive_def henry_def)
  with exclusion_rules [of cfgLive henry]
  have h: "shouldExcludeUser cfgLive henry" "getExclusionReason cfgLive henry = ''Admin user''"
    by blast+
  have p: "prefix ''/LH - legal hold'' (orElse (orgUnitPath henry) ''/'')"
    by (simp add: henry_def)
  have i: "shouldExcludeUser cfgLive ivy"
    "getExclusionReason cfgLive ivy = ''In excluded OU: /LH - legal hold''"
    by (simp_all add: shouldExcludeUser_def getExclusionReason_def cfgLive_def ivy_def)
  have n: "\<not> shouldExcludeUser cfgLive erin"
    by (simp add: shouldExcludeUser_def cfgLive_def erin_def)
  with exclusion_rules [of cfgLive erin]
  have u: "getExclusionReason cfgLive erin = ''Unknown''" by blast
  from a have a': "EXCLUDE_ADMINS cfgLive" "isDelegatedAdmin henry"
    by (simp_all add: henry_def)
  show ?thesis by (intro conjI a' h p i n u)
qed

lemma batchLoop_in_time:
  assumes "\<forall>j. i \<le> j \<and> j < i + length gs \<longrightarrow> elapsedMs e j \<le> 1000 * MAX_EXECUTION_TIME cfg"
  shows "batchLoop cfg e gs i = (concat (map (auditGroup e) gs), i + length gs)"
  using assms
proof (induction gs arbitrary: i)
  case Nil
  show ?case by simp
next
  case (Cons g gs)
  from Cons.prems have now: "\<not> elapsedMs e i > 1000 * MAX_EXECUTION_TIME cfg"
    by (simp add: not_less)
  from Cons.prems have "\<forall>j. Suc i \<le> j \<and> j < Suc i + length gs
      \<longrightarrow> elapsedMs e j \<le> 1000 * MAX_EXECUTION_TIME cfg"
    by simp
  from Cons.IH [OF this] now show ?case by simp
qed

text \<open>
  A full batch. From a checkpoint in order, an invocation whose batch loop is not cut short by the
  clock and whose report does not fail processes the groups from the index up to
  \<open>min (index + BATCH_SIZE) total\<close>: if that is less than the total it saves that index
  and the results so far; otherwise it completes the audit.
\<close>

theorem full_batch_processed:
  assumes ok: "checkpointOk s"
    and clock: "\<forall>j < BATCH_SIZE cfg. elapsedMs e j \<le> 1000 * MAX_EXECUTION_TIME cfg"
    and report: "reportFails e = None"
  shows "\<exists>gs i rs.
       fst (getAllGroups e s) = Inr gs \<and> loadIndex s = Some i \<and> loadResults s = Inr rs
     \<and> 0 \<le> i \<and> i \<le> int (length gs)
     \<and> (let j = min (i + int (BATCH_SIZE cfg)) (int (length gs));
             batch = concat (map (auditGroup e) (take (nat (j - i)) (drop (nat i) gs)))
         in if j < int (length gs)
            then auditGroupsWithoutOwners cfg e s
                   = (s\<lparr>groupsCache := Some (Denotes gs),
                         processedIndex := Some (Denotes j),
                         auditResults := Some (Denotes (rs @ batch))\<rparr>, InProgress)
            else auditGroupsWithoutOwners cfg e s
                   = (s\<lparr>groupsCache := Some (Denotes gs),
                         processedIndex := None, auditResults := None\<rparr>,
                      Completed (rs @ batch) (length gs)))"
proof -
  from checkpointOk_loads [OF ok, of e]
  obtain gs i rs where g: "getAllGroups e s = (Inr gs, s\<lparr>groupsCache := Some (Denotes gs)\<rparr>)"
    and l: "loadIndex (s\<lparr>groupsCache := Some (Denotes gs)\<rparr>) = Some i" "loadIndex s = Some i"
           "loadResults (s\<lparr>groupsCache := Some (Denotes gs)\<rparr>) = Inr rs" "loadResults s = Inr rs"
    and i: "0 \<le> i" "i \<le> int (length gs)"
    by blast
  let ?s1 = "s\<lparr>groupsCache := Some (Denotes gs)\<rparr>"
  let ?j = "min (i + int (BATCH_SIZE cfg)) (int (length gs))"
  let ?bg = "take (nat (?j - i)) (drop (nat i) gs)"
  let ?batch = "concat (map (auditGroup e) ?bg)"
  have sl: "slice gs (Some i) (Some ?j) = ?bg"
    using i by (intro slice_in_range) simp_all
  have len: "int (length ?bg) = ?j - i"
    using length_slice_in_range [of i ?j gs] i unfolding sl by simp
  have r: "auditGroupsWithoutOwners cfg e s = runBatch cfg e gs ?s1 (Some i) rs"
    by (simp add: auditGroupsWithoutOwners_def g l)
  have short: "length ?bg \<le> BATCH_SIZE cfg" using len by linarith
  have "\<forall>j. 0 \<le> j \<and> j < 0 + length ?bg
      \<longrightarrow> elapsedMs e j \<le> 1000 * MAX_EXECUTION_TIME cfg"
  proof (intro allI impI)
    fix j assume "0 \<le> j \<and> j < 0 + length ?bg"
    with short have "j < BATCH_SIZE cfg" by linarith
    with clock show "elapsedMs e j \<le> 1000 * MAX_EXECUTION_TIME cfg" by blast
  qed
  from batchLoop_in_time [OF this]
  have bl: "batchLoop cfg e (slice gs (Some i) (Some ?j)) 0 = (?batch, length ?bg)"
    unfolding sl by simp
  have idx: "num_add (Some i) (int (length ?bg)) = Some ?j" using len by simp
  have rb: "runBatch cfg e gs ?s1 (Some i) rs =
      (if int (length gs) \<le> ?j
       then (?s1\<lparr>processedIndex := None, auditResults := None\<rparr>,
             Completed (rs @ ?batch) (length gs))
       else (?s1\<lparr>processedIndex := Some (Denotes ?j),
                auditResults := Some (Denotes (rs @ ?batch))\<rparr>,
             InProgress))"
    unfolding runBatch_def Let_def Math_min.simps num_add.simps(2) [of i "int (BATCH_SIZE cfg)"] bl
      prod.case idx report
    by (simp add: JSON_stringify_def)
  have fin: "(?j < int (length gs)) = (\<not> int (length gs) \<le> ?j)" by linarith
  have "fst (getAllGroups e s) = Inr gs" using g by simp
  moreover have "(let j = ?j; batch = concat (map (auditGroup e) (take (nat (j - i)) (drop (nat i) gs)))
         in if j < int (length gs)
            then auditGroupsWithoutOwners cfg e s
                   = (s\<lparr>groupsCache := Some (Denotes gs),
                         processedIndex := Some (Denotes j),
                         auditResults := Some (Denotes (rs @ batch))\<rparr>, InProgress)
            else auditGroupsWithoutOwners cfg e s
                   = (s\<lparr>groupsCache := Some (Denotes gs),
                         processedIndex := None, auditResults := None\<rparr>,
                      Completed (rs @ batch) (length gs)))"
    unfolding Let_def r rb fin by simp
  ultimately show ?thesis
    using l(2,4) i by blast
qed

text \<open>
  The first invocation on three groups with batches of two, the clock within its limit:
  it audits the first two groups and saves the index 2.
\<close>

theorem full_batch_processed_witness:
  "checkpointOk fresh
   \<and> BATCH_SIZE cfgBatch = 2
   \<and> elapsedMs env1 0 \<le> 1000 * MAX_EXECUTION_TIME cfgBatch
   \<and> elapsedMs env1 1 \<le> 1000 * MAX_EXECUTION_TIME cfgBatch
   \<and> reportFails env1 = None
   \<and> auditGroupsWithoutOwners cfgBatch env1 fresh
       = (\<lparr>processedIndex = Some (Denotes 2), auditResults = Some (Denotes [opsResult]),
           groupsCache = Some (Denotes [g1, g2, g3])\<rparr>, InProgress)"
proof -
  have a: "checkpointOk fresh" by (simp add: checkpointOk_def fresh_def)
  have b: "\<forall>j < BATCH_SIZE cfgBatch. elapsedMs env1 j \<le> 1000 * MAX_EXECUTION_TIME cfgBatch"
    by (simp add: cfgBatch_def env1_def)
  have c: "reportFails env1 = None" by (simp add: env1_def)
  from full_batch_processed [OF a b c]
  obtain gs i rs where "fst (getAllGroups env1 fresh) = Inr gs" "loadIndex fresh = Some i"
    by blast
  then have d: "auditGroupsWithoutOwners cfgBatch env1 fresh
       = (\<lparr>processedIndex = Some (Denotes 2), auditResults = Some (Denotes [opsResult]),
           groupsCache = Some (Denotes [g1, g2, g3])\<rparr>, InProgress)"
    by (simp add: run_first)
  have e: "BATCH_SIZE cfgBatch = 2"
    "elapsedMs env1 0 \<le> 1000 * MAX_EXECUTION_TIME cfgBatch"
    "elapsedMs env1 1 \<le> 1000 * MAX_EXECUTION_TIME cfgBatch"
    by (simp_all add: cfgBatch_def env1_def)
  show ?thesis by (intro conjI a e c d)
qed

end
